theory Spec2Isabelle
  imports Main "HOL-Library.Word" "HOL-Library.Multiset"
begin

section \<open>The serial shell of IotWebConf18ShellCommands.ino\<close>

text \<open>
  The sketch's namespace \<open>shell\<close>: a command table of fixed capacity, a parser that
  splits a line into a name and at most one argument, a dispatcher, and the line
  assembler fed from the serial port.

  Conventions of the embedding.
  \<^item> A C string is the list of its characters before the terminating NUL.
  \<^item> A \<open>char[N]\<close> field that only ever holds a C string is modelled by that string
    and the capacity \<open>N\<close> is checked where the code writes it; the line buffer, which
    is written byte by byte, is a list of \<open>N\<close> characters.
  \<^item> A write past the end of a buffer is undefined behaviour in C; in the model it
    is the error value.
  \<^item> \<open>Serial\<close> is the text printed so far; \<open>println\<close> ends a line with CR LF.
  \<^item> The handlers are the host application's; calling one is recorded as an event.
  \<^item> The targets (ESP8266, ESP32) have 32-bit \<open>int\<close>, \<open>long\<close>, \<open>size_t\<close> and
    \<open>ptrdiff_t\<close>.
\<close>

subsection \<open>Constants and data\<close>

definition MAX_COMMANDS :: nat where
  "MAX_COMMANDS = 10"

definition MAX_COMMAND_SIZE :: nat where
  "MAX_COMMAND_SIZE = 40"

datatype input_type = NONE | INT32 | STRING

text \<open>
  \<open>struct Command\<close>. The anonymous union of the three function pointers is one
  pointer-sized slot, \<open>fn\<close>, read through the member that \<open>parameter_type\<close> selects.
\<close>

record Command =
  name :: string
  fn :: nat
  doc :: string
  parameter_type :: input_type

record CommandLine =
  function_name :: string
  argument_type :: input_type
  int_argument :: "32 word"
  str_argument :: string

datatype call = CallVoid nat | CallInt nat "32 word" | CallStr nat string

datatype error = BufferOverflow | OutOfBounds

text \<open>
  The globals of the namespace and the two statics of \<open>processSerialInput\<close>, with the
  serial output and the handler calls made so far.
\<close>

record shell =
  commands :: "Command list"
  commands_count :: nat
  input_line :: string
  input_pos :: nat
  serial :: string
  calls :: "call list"

definition NUL :: char where
  "NUL = CHR 0x00"

definition CRLF :: string where
  "CRLF = [CHR 0x0D, CHR 0x0A]"

definition print :: "string \<Rightarrow> shell \<Rightarrow> shell" where
  "print s st = st\<lparr>serial := serial st @ s\<rparr>"

definition println :: "string \<Rightarrow> shell \<Rightarrow> shell" where
  "println s st = st\<lparr>serial := serial st @ s @ CRLF\<rparr>"

text \<open>The entries in use: \<open>commands[0 .. commands_count - 1]\<close>.\<close>

definition registered :: "shell \<Rightarrow> Command list" where
  "registered st = take (commands_count st) (commands st)"

subsection \<open>The C library functions the shell calls\<close>

text \<open>\<open>*p\<close> for a pointer into a C string: the character there, NUL at its end.\<close>

definition deref :: "string \<Rightarrow> char" where
  "deref s = (case s of [] \<Rightarrow> NUL | c # _ \<Rightarrow> c)"

text \<open>The C string held in a character array: the characters before the first NUL.\<close>

definition cstr :: "string \<Rightarrow> string" where
  "cstr buf = takeWhile (\<lambda>c. c \<noteq> NUL) buf"

text \<open>\<open>strchr\<close>, as the offset of the first occurrence.\<close>

fun strchr :: "string \<Rightarrow> char \<Rightarrow> nat option" where
  "strchr [] c = (if c = NUL then Some 0 else None)"
| "strchr (x # xs) c = (if x = c then Some 0 else map_option Suc (strchr xs c))"

text \<open>
  \<open>strcmp\<close>: the difference of the first pair of bytes that differ, read as unsigned
  char; it stops at a NUL.
\<close>

fun strcmp :: "string \<Rightarrow> string \<Rightarrow> int" where
  "strcmp [] [] = 0"
| "strcmp [] (b # bs) = - int (of_char b)"
| "strcmp (a # as) [] = int (of_char a)"
| "strcmp (a # as) (b # bs) =
     (if a \<noteq> b then int (of_char a) - int (of_char b)
      else if a = NUL then 0
      else strcmp as bs)"

text \<open>
  \<open>strlcpy(dst, src, size)\<close> into a destination of capacity \<open>cap\<close>: nothing is written
  when \<open>size\<close> is 0; otherwise \<open>min (strlen src) (size - 1)\<close> characters and a NUL.
  The result is the C string left in \<open>dst\<close>.
\<close>

definition strlcpy :: "nat \<Rightarrow> string \<Rightarrow> string \<Rightarrow> nat \<Rightarrow> error + string" where
  "strlcpy cap dst src siz =
     (if siz = 0 then Inr dst
      else if cap < min (length src) (siz - 1) + 1 then Inl BufferOverflow
      else Inr (take (siz - 1) src))"

text \<open>The conversion of an \<open>int\<close> to the 32-bit \<open>size_t\<close>.\<close>

definition size_t :: "int \<Rightarrow> nat" where
  "size_t i = nat (i mod 2 ^ 32)"

text \<open>
  \<open>strtol(nptr, &end, 0)\<close> with a 32-bit \<open>long\<close>, after newlib's implementation (the C
  library of both targets): white space, an optional sign, the base from the prefix,
  then digits with saturation. A pointer into \<open>nptr\<close> is the text from there on; the
  result is the value and the text at \<open>end\<close>. When no digit is converted, \<open>end\<close> is
  \<open>nptr\<close> and the value is 0. (For \<open>0x\<close> with no hexadecimal digit after it, newlib
  converts nothing where ISO C converts the \<open>0\<close>; the value is 0 and \<open>*end\<close> is not the
  terminator either way.)
\<close>

definition isspace :: "char \<Rightarrow> bool" where
  "isspace c = (c = CHR 0x20 \<or> (9 \<le> (of_char c :: nat) \<and> (of_char c :: nat) \<le> 13))"

definition digit_value :: "char \<Rightarrow> nat option" where
  "digit_value c =
     (let n = (of_char c :: nat) in
      if 48 \<le> n \<and> n \<le> 57 then Some (n - 48)
      else if 65 \<le> n \<and> n \<le> 90 then Some (n - 55)
      else if 97 \<le> n \<and> n \<le> 122 then Some (n - 87)
      else None)"

fun strtol_digits :: "nat \<Rightarrow> nat \<Rightarrow> nat \<Rightarrow> nat \<Rightarrow> int \<Rightarrow> string \<Rightarrow> nat \<times> int \<times> string" where
  "strtol_digits base cutoff cutlim acc any [] = (acc, any, [])"
| "strtol_digits base cutoff cutlim acc any (c # s) =
     (case digit_value c of
        None \<Rightarrow> (acc, any, c # s)
      | Some d \<Rightarrow>
          if base \<le> d then (acc, any, c # s)
          else if any < 0 \<or> cutoff < acc \<or> (acc = cutoff \<and> cutlim < d)
          then strtol_digits base cutoff cutlim acc (- 1) s
          else strtol_digits base cutoff cutlim (acc * base + d) 1 s)"

definition LONG_MAX :: "32 word" where
  "LONG_MAX = 0x7FFFFFFF"

definition LONG_MIN :: "32 word" where
  "LONG_MIN = 0x80000000"

definition strtol :: "string \<Rightarrow> 32 word \<times> string" where
  "strtol nptr =
     (let s0 = dropWhile isspace nptr;
          neg = (deref s0 = CHR ''-'');
          s1 = (if deref s0 = CHR ''-'' \<or> deref s0 = CHR ''+'' then drop 1 s0 else s0);
          hex = (deref s1 = CHR ''0'' \<and> (deref (drop 1 s1) = CHR ''x'' \<or> deref (drop 1 s1) = CHR ''X''));
          s2 = (if hex then drop 2 s1 else s1);
          base = (if hex then 16 else if deref s1 = CHR ''0'' then 8 else 10);
          limit = (if neg then 2 ^ 31 else 2 ^ 31 - 1);
          (acc, any, s3) = strtol_digits base (limit div base) (limit mod base) 0 0 s2
      in (if any < 0 then (if neg then LONG_MIN else LONG_MAX)
          else if neg then - word_of_nat acc
          else word_of_nat acc,
          if any = 0 then nptr else s3))"

subsection \<open>The parser\<close>

text \<open>
  \<open>parseCommand(command, command_line)\<close>. The record passed in is the caller's
  \<open>command_line\<close> as it stands before the call; the fields the code does not assign
  keep their values.
\<close>

definition parseCommand :: "string \<Rightarrow> CommandLine \<Rightarrow> shell \<Rightarrow> error + (CommandLine \<times> shell)" where
  "parseCommand command command_line st =
     (if length command = 0
      then Inr (command_line\<lparr>argument_type := NONE\<rparr>, println ''Received empty command'' st)
      else
        (case strchr command CHR 0x20 of
           None \<Rightarrow>
             (case strlcpy MAX_COMMAND_SIZE (function_name command_line) command MAX_COMMAND_SIZE of
                Inl e \<Rightarrow> Inl e
              | Inr f \<Rightarrow> Inr (command_line\<lparr>argument_type := NONE, function_name := f\<rparr>, st))
         | Some first_space \<Rightarrow>
             (case strlcpy MAX_COMMAND_SIZE (function_name command_line) command
                     (size_t (int first_space + 1)) of
                Inl e \<Rightarrow> Inl e
              | Inr f \<Rightarrow>
                  (case strlcpy MAX_COMMAND_SIZE (str_argument command_line)
                          (drop (first_space + 1) command)
                          (size_t (int MAX_COMMAND_SIZE - int first_space - 1)) of
                     Inl e \<Rightarrow> Inl e
                   | Inr a \<Rightarrow>
                       (let (v, endp) = strtol a
                        in Inr (command_line\<lparr>function_name := f, str_argument := a,
                                  int_argument := v,
                                  argument_type := (if deref endp \<noteq> NUL then STRING else INT32)\<rparr>,
                                st))))))"

subsection \<open>The command table\<close>

text \<open>
  \<open>addCommand\<close> writes the name and the documentation into the next free slot and
  leaves the counter alone; each \<open>define...\<close> function then stores the handler and the
  kind tag and increments the 8-bit counter.
\<close>

definition addCommand :: "string \<Rightarrow> string \<Rightarrow> shell \<Rightarrow> bool \<times> shell" where
  "addCommand n doc_fstring st =
     (if commands_count st < MAX_COMMANDS
      then (True, st\<lparr>commands := (commands st)
                [commands_count st := (commands st ! commands_count st)\<lparr>name := n, doc := doc_fstring\<rparr>]\<rparr>)
      else (False, println ''Too many commands have been defined.'' st))"

definition set_handler :: "nat \<Rightarrow> input_type \<Rightarrow> shell \<Rightarrow> shell" where
  "set_handler f t st =
     st\<lparr>commands := (commands st)
           [commands_count st := (commands st ! commands_count st)\<lparr>fn := f, parameter_type := t\<rparr>],
        commands_count := (commands_count st + 1) mod 256\<rparr>"

definition defineCommand :: "string \<Rightarrow> nat \<Rightarrow> string \<Rightarrow> shell \<Rightarrow> shell" where
  "defineCommand n f doc_fstring st =
     (case addCommand n doc_fstring st of
        (True, st1) \<Rightarrow> set_handler f NONE st1
      | (False, st1) \<Rightarrow> st1)"

definition defineIntCommand :: "string \<Rightarrow> nat \<Rightarrow> string \<Rightarrow> shell \<Rightarrow> shell" where
  "defineIntCommand n f doc_fstring st =
     (case addCommand n doc_fstring st of
        (True, st1) \<Rightarrow> set_handler f INT32 st1
      | (False, st1) \<Rightarrow> st1)"

definition defineStringCommand :: "string \<Rightarrow> nat \<Rightarrow> string \<Rightarrow> shell \<Rightarrow> shell" where
  "defineStringCommand n f doc_fstring st =
     (case addCommand n doc_fstring st of
        (True, st1) \<Rightarrow> set_handler f STRING st1
      | (False, st1) \<Rightarrow> st1)"

subsection \<open>The help listing\<close>

definition compareCommandNames :: "Command \<Rightarrow> Command \<Rightarrow> int" where
  "compareCommandNames c1 c2 = strcmp (name c1) (name c2)"

text \<open>
  \<open>qsort\<close> with a comparator, as a sort by insertion. Between elements that compare
  equal C leaves the order open; this sort is stable: \<open>qsort\<close> puts the first element
  of the array before every later element it compares equal to, so such elements stay
  in their order of arrival. The properties below that speak of the order after
  sorting state only that it is ascending and a permutation, which holds of every
  \<open>qsort\<close>.
\<close>

fun qsort_insert :: "('a \<Rightarrow> 'a \<Rightarrow> int) \<Rightarrow> 'a \<Rightarrow> 'a list \<Rightarrow> 'a list" where
  "qsort_insert compar x [] = [x]"
| "qsort_insert compar x (y # ys) =
     (if compar x y \<le> 0 then x # y # ys else y # qsort_insert compar x ys)"

fun qsort :: "('a \<Rightarrow> 'a \<Rightarrow> int) \<Rightarrow> 'a list \<Rightarrow> 'a list" where
  "qsort compar [] = []"
| "qsort compar (x # xs) = qsort_insert compar x (qsort compar xs)"

definition print_command :: "Command \<Rightarrow> string" where
  "print_command c = ''  '' @ name c @ '' '' @ doc c @ ''.'' @ CRLF"

text \<open>The array is sorted in place, then its first \<open>commands_count\<close> entries are printed.\<close>

definition listAvailableCommands :: "shell \<Rightarrow> shell" where
  "listAvailableCommands st =
     (let st1 = st\<lparr>commands := qsort compareCommandNames (take (commands_count st) (commands st))
                                 @ drop (commands_count st) (commands st)\<rparr>
      in print (concat (map print_command (take (commands_count st1) (commands st1)))) st1)"

subsection \<open>The dispatcher\<close>

text \<open>\<open>Serial.print\<close> of a \<open>long\<close>: a minus sign for a negative value, then the decimal digits.\<close>

fun printNumber :: "nat \<Rightarrow> string" where
  "printNumber n =
     (if n < 10 then [char_of (48 + n)]
      else printNumber (n div 10) @ [char_of (48 + n mod 10)])"

declare printNumber.simps [simp del]

definition print_long :: "32 word \<Rightarrow> string" where
  "print_long v =
     (if sint v < 0 then CHR ''-'' # printNumber (nat (- sint v)) else printNumber (nat (sint v)))"

text \<open>
  The loop of \<open>execute\<close> over \<open>commands[0 .. commands_count - 1]\<close>: the first entry
  whose name and kind both fit is called and \<open>execute\<close> returns; \<open>None\<close> when the loop
  runs to its end.
\<close>

fun execute_loop :: "CommandLine \<Rightarrow> Command list \<Rightarrow> shell \<Rightarrow> shell option" where
  "execute_loop input [] st = None"
| "execute_loop input (c # cs) st =
     (if strcmp (function_name input) (name c) = 0 \<and> argument_type input = parameter_type c
      then
        (let st1 = print (function_name input) (print ''Calling : '' st) in
         case argument_type input of
           NONE \<Rightarrow> Some ((println ''()'' st1)\<lparr>calls := calls st1 @ [CallVoid (fn c)]\<rparr>)
         | INT32 \<Rightarrow>
             Some ((println '')'' (print (print_long (int_argument input)) (print ''('' st1)))
                     \<lparr>calls := calls st1 @ [CallInt (fn c) (int_argument input)]\<rparr>)
         | STRING \<Rightarrow>
             Some ((println [CHR 0x27, CHR '')''] (print (str_argument input) (print [CHR ''('', CHR 0x27] st1)))
                     \<lparr>calls := calls st1 @ [CallStr (fn c) (str_argument input)]\<rparr>))
      else execute_loop input cs st)"

text \<open>
  \<open>execute(command_str)\<close>. The local \<open>CommandLine input\<close> is declared without an
  initialiser: what it holds when \<open>parseCommand\<close> receives it is the parameter
  \<open>input0\<close>.
\<close>

definition execute :: "CommandLine \<Rightarrow> string \<Rightarrow> shell \<Rightarrow> error + shell" where
  "execute input0 command_str st =
     (case parseCommand command_str input0 st of
        Inl e \<Rightarrow> Inl e
      | Inr (input, st1) \<Rightarrow>
          (case execute_loop input (take (commands_count st1) (commands st1)) st1 of
             Some st2 \<Rightarrow> Inr st2
           | None \<Rightarrow>
               Inr (listAvailableCommands
                      (println (CHR 0x27 # '' not supported. Available commands :'')
                         (print command_str (print [CHR 0x27] st1))))))"

subsection \<open>The line assembler\<close>

text \<open>\<open>buf[i] = c\<close> on a character array.\<close>

definition store :: "string \<Rightarrow> nat \<Rightarrow> char \<Rightarrow> error + string" where
  "store buf i c = (if i < length buf then Inr (buf[i := c]) else Inl OutOfBounds)"

definition processSerialInput :: "CommandLine \<Rightarrow> char \<Rightarrow> shell \<Rightarrow> error + shell" where
  "processSerialInput input0 input_byte st =
     (if input_byte = CHR 0x0A then
        (case store (input_line st) (input_pos st) NUL of
           Inl e \<Rightarrow> Inl e
         | Inr line \<Rightarrow>
             (case execute input0 (cstr line) ((println [] st)\<lparr>input_line := line\<rparr>) of
                Inl e \<Rightarrow> Inl e
              | Inr st1 \<Rightarrow> Inr (st1\<lparr>input_pos := 0\<rparr>)))
      else if input_byte = CHR 0x0D then Inr st
      else if input_byte = CHR 0x08 then
        (if 0 < input_pos st
         then Inr (print [CHR 0x08, CHR 0x20, CHR 0x08] (st\<lparr>input_pos := input_pos st - 1\<rparr>))
         else Inr st)
      else
        (let st1 = (if input_pos st = 0 then print ''> '' st else st) in
         if input_pos st1 < MAX_COMMAND_SIZE - 1
         then
           (case store (input_line st1) (input_pos st1) input_byte of
              Inl e \<Rightarrow> Inl e
            | Inr line \<Rightarrow>
                Inr (print [input_byte] (st1\<lparr>input_line := line, input_pos := input_pos st1 + 1\<rparr>)))
         else Inr st1))"

text \<open>
  \<open>checkSerialInput\<close> on the bytes that are available, in order. Each call of
  \<open>execute\<close> meets its own uninitialised local: \<open>residue\<close> gives its contents from the
  state at that moment.
\<close>

fun checkSerialInput :: "(shell \<Rightarrow> CommandLine) \<Rightarrow> char list \<Rightarrow> shell \<Rightarrow> error + shell" where
  "checkSerialInput residue [] st = Inr st"
| "checkSerialInput residue (b # bs) st =
     (case processSerialInput (residue st) b st of
        Inl e \<Rightarrow> Inl e
      | Inr st1 \<Rightarrow> checkSerialInput residue bs st1)"

subsection \<open>The sketch's own commands\<close>

text \<open>
  The globals before \<open>setup\<close>: zero-initialised. Then \<open>defineShellCommands\<close>; the nine
  handlers are numbered in the order of their definition in the sketch.
\<close>

definition null_command :: Command where
  "null_command = \<lparr>name = [], fn = 0, doc = [], parameter_type = NONE\<rparr>"

definition initial_shell :: shell where
  "initial_shell =
     \<lparr>commands = replicate MAX_COMMANDS null_command, commands_count = 0,
      input_line = replicate MAX_COMMAND_SIZE NUL, input_pos = 0, serial = [], calls = []\<rparr>"

definition defineShellCommands :: "shell \<Rightarrow> shell" where
  "defineShellCommands st =
     defineIntCommand ''wifi'' 9 ''0/1 (Enables/disables WiFi)''
       (defineIntCommand ''ap'' 8 ''0/1 (Enables/disables access point)''
         (defineStringCommand ''name'' 7 ''abc (Sets ThingName to abc)''
           (defineStringCommand ''ap_pwd'' 6 ''abc (Sets AP password to abc)''
             (defineStringCommand ''wifi_pwd'' 5 ''abc (Sets WiFi password to abc)''
               (defineStringCommand ''ssid'' 4 ''name (Sets SSID to name)''
                 (defineCommand ''reset_config'' 3 ''(Resets the complete IotWeb config)''
                   (defineCommand ''save_config'' 2 ''(Saves the config to EEPROM)''
                     (defineCommand ''reset'' 1 ''(Restarts the ESP)'' st))))))))"

text \<open>
  Sample contents for the uninitialised local of \<open>execute\<close>: what an earlier call
  for the line \<open>reset\<close> would have left in that stack slot.
\<close>

definition stale_input :: CommandLine where
  "stale_input =
     \<lparr>function_name = ''reset'', argument_type = NONE, int_argument = 77, str_argument = ''junk''\<rparr>"

subsection \<open>Integer literals, as the specification words them\<close>

text \<open>
  The specification's reading of an integer argument: an optional sign, then a
  hexadecimal literal after \<open>0x\<close>, an octal one after \<open>0\<close>, a decimal one otherwise, with
  nothing after the digits. \<open>spec_integer_literal\<close> gives the number such a text
  denotes. It is written from the specification, not from \<open>strtol\<close>, to be compared
  with it.
\<close>

definition digit_in :: "nat \<Rightarrow> char \<Rightarrow> bool" where
  "digit_in b c = (case digit_value c of None \<Rightarrow> False | Some d \<Rightarrow> d < b)"

fun digits_value :: "nat \<Rightarrow> nat \<Rightarrow> string \<Rightarrow> nat" where
  "digits_value b acc [] = acc"
| "digits_value b acc (c # cs) =
     digits_value b (acc * b + (case digit_value c of None \<Rightarrow> 0 | Some d \<Rightarrow> d)) cs"

definition spec_digits :: "nat \<Rightarrow> string \<Rightarrow> nat option" where
  "spec_digits b ds =
     (if ds \<noteq> [] \<and> list_all (digit_in b) ds then Some (digits_value b 0 ds) else None)"

definition spec_unsigned_literal :: "string \<Rightarrow> nat option" where
  "spec_unsigned_literal s =
     (if take 2 s = ''0x'' \<or> take 2 s = ''0X'' then spec_digits 16 (drop 2 s)
      else if take 1 s = ''0'' then spec_digits 8 s
      else spec_digits 10 s)"

definition spec_integer_literal :: "string \<Rightarrow> int option" where
  "spec_integer_literal s =
     (if take 1 s = ''-'' then map_option (\<lambda>n. - int n) (spec_unsigned_literal (drop 1 s))
      else if take 1 s = ''+'' then map_option int (spec_unsigned_literal (drop 1 s))
      else map_option int (spec_unsigned_literal s))"

text \<open>A number brought into the range of a 32-bit \<open>long\<close>.\<close>

definition saturate32 :: "int \<Rightarrow> int" where
  "saturate32 v = max (- (2 ^ 31)) (min (2 ^ 31 - 1) v)"

subsection \<open>Names for the parts of a dispatch\<close>

text \<open>
  The condition of the \<open>if\<close> in the loop of \<open>execute\<close>; the handler call its \<open>switch\<close>
  makes for the entry found; and the trace it prints before the call.
\<close>

definition fits :: "CommandLine \<Rightarrow> Command \<Rightarrow> bool" where
  "fits input c =
     (strcmp (function_name input) (name c) = 0 \<and> argument_type input = parameter_type c)"

definition handler_call :: "CommandLine \<Rightarrow> Command \<Rightarrow> call" where
  "handler_call input c =
     (case argument_type input of
        NONE \<Rightarrow> CallVoid (fn c)
      | INT32 \<Rightarrow> CallInt (fn c) (int_argument input)
      | STRING \<Rightarrow> CallStr (fn c) (str_argument input))"

definition call_trace :: "CommandLine \<Rightarrow> string" where
  "call_trace input =
     ''Calling : '' @ function_name input @
     (case argument_type input of
        NONE \<Rightarrow> ''()''
      | INT32 \<Rightarrow> ''('' @ print_long (int_argument input) @ '')''
      | STRING \<Rightarrow> [CHR ''('', CHR 0x27] @ str_argument input @ [CHR 0x27, CHR '')'']) @ CRLF"

text \<open>The state after the notice that \<open>execute\<close> prints for a line it could not dispatch.\<close>

definition unsupported :: "string \<Rightarrow> shell \<Rightarrow> shell" where
  "unsupported command_str st =
     st\<lparr>serial := serial st @ [CHR 0x27] @ command_str
                     @ CHR 0x27 # '' not supported. Available commands :'' @ CRLF\<rparr>"

text \<open>The bytes the line assembler treats specially; every other byte is ordinary.\<close>

definition ordinary :: "char \<Rightarrow> bool" where
  "ordinary b = (b \<noteq> CHR 0x0A \<and> b \<noteq> CHR 0x0D \<and> b \<noteq> CHR 0x08)"

section \<open>Properties\<close>

subsection \<open>Comparing and sorting names\<close>

lemma of_char_NUL: "(of_char NUL :: nat) = 0"
  by (simp add: NUL_def)

lemma of_char_eq_0_iff: "((of_char c :: nat) = 0) = (c = NUL)"
proof
  assume "(of_char c :: nat) = 0"
  then have "(of_char c :: nat) = of_char NUL" by (simp add: of_char_NUL)
  then show "c = NUL" by (simp only: of_char_eq_iff)
next
  assume "c = NUL"
  then show "(of_char c :: nat) = 0" by (simp add: of_char_NUL)
qed

lemma of_char_less:
  "a \<noteq> b \<Longrightarrow> (of_char a :: nat) \<le> of_char b \<Longrightarrow> (of_char a :: nat) < of_char b"
  by (simp add: le_less)

lemma strcmp_swap: "strcmp b a = - strcmp a b"
  by (induction a b rule: strcmp.induct) auto

lemma strcmp_Nil_le: "strcmp [] c \<le> 0"
  by (cases c) auto

lemma strcmp_Cons_le:
  "(strcmp (a # as) (b # bs) \<le> 0) =
     ((of_char a :: nat) < of_char b \<or> (a = b \<and> (a = NUL \<or> strcmp as bs \<le> 0)))"
  by (auto intro: of_char_less)

lemma strcmp_trans: "strcmp a b \<le> 0 \<Longrightarrow> strcmp b c \<le> 0 \<Longrightarrow> strcmp a c \<le> 0"
proof (induction a arbitrary: b c)
  case Nil
  then show ?case by (simp add: strcmp_Nil_le)
next
  case (Cons x xs)
  show ?case
  proof (cases b)
    case Nil
    with Cons.prems have x: "x = NUL" by (simp add: of_char_eq_0_iff)
    show ?thesis
    proof (cases c)
      case Nil
      with x show ?thesis by (simp add: of_char_NUL)
    next
      case (Cons z zs)
      with x show ?thesis by (simp add: of_char_NUL)
    qed
  next
    case b: (Cons y ys)
    show ?thesis
    proof (cases c)
      case Nil
      with Cons.prems b have "y = NUL" by (simp add: of_char_eq_0_iff)
      with Cons.prems b have "x = NUL"
        by (simp only: strcmp_Cons_le) (auto simp: of_char_NUL)
      with Nil show ?thesis by (simp add: of_char_NUL)
    next
      case c: (Cons z zs)
      from Cons.prems b c
      have xy: "(of_char x :: nat) < of_char y \<or> (x = y \<and> (x = NUL \<or> strcmp xs ys \<le> 0))"
        and yz: "(of_char y :: nat) < of_char z \<or> (y = z \<and> (y = NUL \<or> strcmp ys zs \<le> 0))"
        by (simp_all only: strcmp_Cons_le)
      have "(of_char x :: nat) < of_char z \<or> (x = z \<and> (x = NUL \<or> strcmp xs zs \<le> 0))"
        using xy yz Cons.IH [of ys zs] by (metis less_trans)
      then show ?thesis unfolding c by (simp only: strcmp_Cons_le)
    qed
  qed
qed

lemma strcmp_eq_0_iff: "(strcmp a b = 0) = (cstr a = cstr b)"
  by (induction a b rule: strcmp.induct) (auto simp: cstr_def of_char_eq_0_iff)

lemma of_char_pos: "b \<noteq> NUL \<Longrightarrow> 0 < (of_char b :: nat)"
  using of_char_eq_0_iff [of b] by simp

lemma strcmp_lexord:
  "(strcmp a b < 0) = ((cstr a, cstr b) \<in> lexord {(x, y). (of_char x :: nat) < of_char y})"
  by (induction a b rule: strcmp.induct)
     (auto simp: cstr_def of_char_eq_0_iff of_char_NUL of_char_pos intro: of_char_less)

lemma qsort_keeps_equal_in_order: "qsort (\<lambda>x y. 0) [a, b, c] = [a, b, c]"
  by simp

lemma mset_qsort_insert: "mset (qsort_insert compar x ys) = add_mset x (mset ys)"
  by (induction ys) auto

lemma mset_qsort: "mset (qsort compar xs) = mset xs"
  by (induction xs) (auto simp: mset_qsort_insert)

lemma length_qsort: "length (qsort compar xs) = length xs"
  by (metis mset_qsort size_mset)

lemma set_qsort_insert: "set (qsort_insert compar x ys) = insert x (set ys)"
  by (metis mset_qsort_insert set_mset_add_mset_insert set_mset_mset)

lemma sorted_qsort_insert:
  assumes swap: "\<And>a b. 0 \<le> compar a b \<Longrightarrow> compar b a \<le> 0"
    and trans: "\<And>a b c. compar a b \<le> 0 \<Longrightarrow> compar b c \<le> 0 \<Longrightarrow> compar a c \<le> 0"
  shows "sorted_wrt (\<lambda>a b. compar a b \<le> 0) ys \<Longrightarrow>
         sorted_wrt (\<lambda>a b. compar a b \<le> 0) (qsort_insert compar x ys)"
proof (induction ys)
  case Nil
  then show ?case by simp
next
  case (Cons y ys)
  show ?case
  proof (cases "compar x y \<le> 0")
    case True
    then have xy: "compar x y \<le> 0" .
    have "\<forall>z\<in>set ys. compar x z \<le> 0"
    proof
      fix z
      assume "z \<in> set ys"
      with Cons.prems have "compar y z \<le> 0" by simp
      with xy show "compar x z \<le> 0" by (rule trans)
    qed
    with Cons.prems xy True show ?thesis by simp
  next
    case False
    then have "compar y x \<le> 0" using swap by simp
    with Cons False show ?thesis by (auto simp: set_qsort_insert)
  qed
qed

lemma sorted_qsort:
  assumes swap: "\<And>a b. 0 \<le> compar a b \<Longrightarrow> compar b a \<le> 0"
    and trans: "\<And>a b c. compar a b \<le> 0 \<Longrightarrow> compar b c \<le> 0 \<Longrightarrow> compar a c \<le> 0"
  shows "sorted_wrt (\<lambda>a b. compar a b \<le> 0) (qsort compar xs)"
  by (induction xs) (auto intro: sorted_qsort_insert [OF swap trans])

lemma sorted_by_name:
  "sorted_wrt (\<lambda>a b. strcmp (name a) (name b) \<le> 0) (qsort compareCommandNames cs)"
proof -
  have "sorted_wrt (\<lambda>a b. compareCommandNames a b \<le> 0) (qsort compareCommandNames cs)"
  proof (rule sorted_qsort)
    fix a b :: Command
    assume "0 \<le> compareCommandNames a b"
    then show "compareCommandNames b a \<le> 0"
      using strcmp_swap [of "name b" "name a"] by (simp add: compareCommandNames_def)
  next
    fix a b c :: Command
    assume "compareCommandNames a b \<le> 0" "compareCommandNames b c \<le> 0"
    then show "compareCommandNames a c \<le> 0"
      unfolding compareCommandNames_def by (rule strcmp_trans)
  qed
  then show ?thesis by (simp add: compareCommandNames_def)
qed

lemma take_qsort_registered:
  "take n (qsort compar (take n xs) @ drop n xs) = qsort compar (take n xs)"
  by (cases "n \<le> length xs") (simp_all add: length_qsort)

lemma registered_listAvailableCommands:
  "registered (listAvailableCommands st) = qsort compareCommandNames (registered st)"
  by (simp add: listAvailableCommands_def registered_def print_def take_qsort_registered Let_def
      del: take_append)

subsection \<open>Registration\<close>

lemma addCommand_full:
  "\<not> commands_count st < MAX_COMMANDS \<Longrightarrow>
   addCommand n d st = (False, println ''Too many commands have been defined.'' st)"
  by (simp add: addCommand_def)

lemma registered_println: "registered (println s st) = registered st"
  by (simp add: registered_def println_def)

lemma Command_all_fields:
  "(r :: Command)\<lparr>name := n, doc := d, fn := f, parameter_type := t\<rparr> =
     \<lparr>name = n, fn = f, doc = d, parameter_type = t\<rparr>"
  by (cases r) simp

lemma addCommand_free:
  "commands_count st < MAX_COMMANDS \<Longrightarrow>
   addCommand n d st =
     (True, st\<lparr>commands := (commands st)
                [commands_count st := (commands st ! commands_count st)\<lparr>name := n, doc := d\<rparr>]\<rparr>)"
  by (simp add: addCommand_def)

lemma define_append:
  assumes "length (commands st) = MAX_COMMANDS" "commands_count st < MAX_COMMANDS"
  shows "set_handler f t (st\<lparr>commands := (commands st)
                [commands_count st := (commands st ! commands_count st)\<lparr>name := n, doc := d\<rparr>]\<rparr>) =
           st\<lparr>commands := (commands st)[commands_count st := \<lparr>name = n, fn = f, doc = d, parameter_type = t\<rparr>],
              commands_count := commands_count st + 1\<rparr>"
  using assms by (simp add: set_handler_def MAX_COMMANDS_def Command_all_fields)

lemma registered_append:
  assumes "length (commands st) = MAX_COMMANDS" "commands_count st < MAX_COMMANDS"
  shows "registered (st\<lparr>commands := (commands st)[commands_count st := c],
              commands_count := Suc (commands_count st)\<rparr>) = registered st @ [c]"
  using assms by (simp add: registered_def take_Suc_conv_app_nth)

text \<open>
  Claim C5. A registration call on a table that already holds \<open>MAX_COMMANDS\<close> entries
  fails (\<open>addCommand\<close> returns false), appends the warning line
  \<open>Too many commands have been defined.\<close> and CR LF to the serial output, and leaves
  the entries and the count as they were; otherwise it succeeds, stores the new entry
  (name, handler, kind tag, documentation) behind the entries already there,
  increments the count and prints nothing. The three \<open>define...\<close> functions differ
  only in the kind tag.
\<close>

theorem define_command_capacity:
  assumes "length (commands st) = MAX_COMMANDS"
  shows "(if commands_count st < MAX_COMMANDS
          then fst (addCommand n d st) \<and>
               defineCommand n f d st =
                 st\<lparr>commands := (commands st)[commands_count st := \<lparr>name = n, fn = f, doc = d, parameter_type = NONE\<rparr>],
                    commands_count := commands_count st + 1\<rparr> \<and>
               defineIntCommand n f d st =
                 st\<lparr>commands := (commands st)[commands_count st := \<lparr>name = n, fn = f, doc = d, parameter_type = INT32\<rparr>],
                    commands_count := commands_count st + 1\<rparr> \<and>
               defineStringCommand n f d st =
                 st\<lparr>commands := (commands st)[commands_count st := \<lparr>name = n, fn = f, doc = d, parameter_type = STRING\<rparr>],
                    commands_count := commands_count st + 1\<rparr> \<and>
               registered (defineCommand n f d st) =
                 registered st @ [\<lparr>name = n, fn = f, doc = d, parameter_type = NONE\<rparr>] \<and>
               registered (defineIntCommand n f d st) =
                 registered st @ [\<lparr>name = n, fn = f, doc = d, parameter_type = INT32\<rparr>] \<and>
               registered (defineStringCommand n f d st) =
                 registered st @ [\<lparr>name = n, fn = f, doc = d, parameter_type = STRING\<rparr>] \<and>
               serial (defineCommand n f d st) = serial st \<and>
               serial (defineIntCommand n f d st) = serial st \<and>
               serial (defineStringCommand n f d st) = serial st
          else \<not> fst (addCommand n d st) \<and>
               defineCommand n f d st =
                 st\<lparr>serial := serial st @ ''Too many commands have been defined.'' @ [CHR 0x0D, CHR 0x0A]\<rparr> \<and>
               defineIntCommand n f d st =
                 st\<lparr>serial := serial st @ ''Too many commands have been defined.'' @ [CHR 0x0D, CHR 0x0A]\<rparr> \<and>
               defineStringCommand n f d st =
                 st\<lparr>serial := serial st @ ''Too many commands have been defined.'' @ [CHR 0x0D, CHR 0x0A]\<rparr> \<and>
               serial (defineCommand n f d st) =
                 serial st @ ''Too many commands have been defined.'' @ [CHR 0x0D, CHR 0x0A] \<and>
               serial (defineIntCommand n f d st) =
                 serial st @ ''Too many commands have been defined.'' @ [CHR 0x0D, CHR 0x0A] \<and>
               serial (defineStringCommand n f d st) =
                 serial st @ ''Too many commands have been defined.'' @ [CHR 0x0D, CHR 0x0A] \<and>
               registered (defineCommand n f d st) = registered st \<and>
               registered (defineIntCommand n f d st) = registered st \<and>
               registered (defineStringCommand n f d st) = registered st \<and>
               commands (defineCommand n f d st) = commands st \<and>
               commands (defineIntCommand n f d st) = commands st \<and>
               commands (defineStringCommand n f d st) = commands st \<and>
               commands_count (defineCommand n f d st) = commands_count st \<and>
               commands_count (defineIntCommand n f d st) = commands_count st \<and>
               commands_count (defineStringCommand n f d st) = commands_count st)"
proof (cases "commands_count st < MAX_COMMANDS")
  case True
  show ?thesis
    using True
    by (simp add: defineCommand_def defineIntCommand_def defineStringCommand_def
        addCommand_free define_append [OF assms True] registered_append [OF assms True])
next
  case False
  have w: "println ''Too many commands have been defined.'' st =
             st\<lparr>serial := serial st @ ''Too many commands have been defined.'' @ [CHR 0x0D, CHR 0x0A]\<rparr>"
    by (simp add: println_def CRLF_def)
  from False show ?thesis
    by (simp add: addCommand_full defineCommand_def defineIntCommand_def defineStringCommand_def w
        registered_def)
qed

theorem define_command_capacity_witness:
  "length (commands initial_shell) = MAX_COMMANDS \<and>
   registered (defineIntCommand ''ap'' 8 ''0/1'' initial_shell) =
     [\<lparr>name = ''ap'', fn = 8, doc = ''0/1'', parameter_type = INT32\<rparr>] \<and>
   serial (defineIntCommand ''ap'' 8 ''0/1'' initial_shell) = [] \<and>
   serial (defineCommand ''reset'' 1 ''(Restarts the ESP)'' (initial_shell\<lparr>commands_count := 10\<rparr>)) =
     ''Too many commands have been defined.'' @ [CHR 0x0D, CHR 0x0A] \<and>
   commands (defineCommand ''reset'' 1 ''(Restarts the ESP)'' (initial_shell\<lparr>commands_count := 10\<rparr>)) =
     commands initial_shell \<and>
   commands_count (defineCommand ''reset'' 1 ''(Restarts the ESP)'' (initial_shell\<lparr>commands_count := 10\<rparr>)) =
     10"
proof -
  let ?full = "initial_shell\<lparr>commands_count := 10\<rparr>"
  have h: "length (commands initial_shell) = MAX_COMMANDS"
    by (simp add: initial_shell_def)
  have h10: "length (commands ?full) = MAX_COMMANDS"
    by (simp add: initial_shell_def)
  have c0: "commands_count initial_shell < MAX_COMMANDS"
    by (simp add: initial_shell_def MAX_COMMANDS_def)
  have r0: "registered initial_shell = []" "serial initial_shell = []"
    by (simp_all add: registered_def initial_shell_def)
  have c10: "\<not> commands_count ?full < MAX_COMMANDS"
    by (simp add: MAX_COMMANDS_def)
  have s10: "serial ?full = []" "commands ?full = commands initial_shell" "commands_count ?full = 10"
    by (simp_all add: initial_shell_def)
  note free = define_command_capacity [OF h, of "''ap''" "''0/1''" 8, unfolded if_P [OF c0]]
  note full = define_command_capacity [OF h10, of "''reset''" "''(Restarts the ESP)''" 1,
      unfolded if_not_P [OF c10]]
  from free
  have a: "registered (defineIntCommand ''ap'' 8 ''0/1'' initial_shell) =
             registered initial_shell @ [\<lparr>name = ''ap'', fn = 8, doc = ''0/1'', parameter_type = INT32\<rparr>]"
    by blast
  from free
  have a2: "serial (defineIntCommand ''ap'' 8 ''0/1'' initial_shell) = serial initial_shell"
    by blast
  from full
  have b: "serial (defineCommand ''reset'' 1 ''(Restarts the ESP)'' ?full) =
             serial ?full @ ''Too many commands have been defined.'' @ [CHR 0x0D, CHR 0x0A]"
    by blast
  from full
  have b2: "commands (defineCommand ''reset'' 1 ''(Restarts the ESP)'' ?full) = commands ?full"
    by blast
  from full
  have b3: "commands_count (defineCommand ''reset'' 1 ''(Restarts the ESP)'' ?full) = commands_count ?full"
    by blast
  from h a a2 b b2 b3 r0 s10 show ?thesis by simp
qed

subsection \<open>The steps of a dispatch\<close>

lemma execute_loop_Cons:
  "execute_loop input (c # cs) st =
     (if fits input c
      then Some (st\<lparr>serial := serial st @ call_trace input,
                    calls := calls st @ [handler_call input c]\<rparr>)
      else execute_loop input cs st)"
  by (cases "argument_type input")
     (simp_all add: fits_def handler_call_def call_trace_def print_def println_def Let_def)

lemma execute_loop_None: "(execute_loop input cs st = None) = (\<forall>c\<in>set cs. \<not> fits input c)"
  by (induction cs) (simp_all add: execute_loop_Cons del: execute_loop.simps(2))

lemma execute_loop_Some:
  "execute_loop input cs st = Some st' \<Longrightarrow>
   \<exists>pre c post. cs = pre @ c # post \<and> (\<forall>x\<in>set pre. \<not> fits input x) \<and> fits input c \<and>
     st' = st\<lparr>serial := serial st @ call_trace input, calls := calls st @ [handler_call input c]\<rparr>"
proof (induction cs)
  case Nil
  then show ?case by simp
next
  case (Cons a cs)
  show ?case
  proof (cases "fits input a")
    case True
    with Cons.prems
    have "st' = st\<lparr>serial := serial st @ call_trace input, calls := calls st @ [handler_call input a]\<rparr>"
      by (simp add: execute_loop_Cons del: execute_loop.simps(2))
    with True have "a # cs = [] @ a # cs \<and> (\<forall>x\<in>set []. \<not> fits input x) \<and> fits input a \<and>
        st' = st\<lparr>serial := serial st @ call_trace input, calls := calls st @ [handler_call input a]\<rparr>"
      by simp
    then show ?thesis by blast
  next
    case False
    with Cons.prems have "execute_loop input cs st = Some st'"
      by (simp add: execute_loop_Cons del: execute_loop.simps(2))
    from Cons.IH [OF this] obtain pre c post where
      h: "cs = pre @ c # post" "\<forall>x\<in>set pre. \<not> fits input x" "fits input c"
         "st' = st\<lparr>serial := serial st @ call_trace input, calls := calls st @ [handler_call input c]\<rparr>"
      by blast
    with False have "a # cs = (a # pre) @ c # post \<and> (\<forall>x\<in>set (a # pre). \<not> fits input x) \<and> fits input c \<and>
        st' = st\<lparr>serial := serial st @ call_trace input, calls := calls st @ [handler_call input c]\<rparr>"
      by simp
    then show ?thesis by blast
  qed
qed

lemma parseCommand_shell:
  "parseCommand l u st = Inr (i, st1) \<Longrightarrow>
   st1 = (if l = [] then println ''Received empty command'' st else st)"
  by (auto simp: parseCommand_def Let_def split: if_splits option.splits sum.splits prod.splits)

lemma parseCommand_registered:
  assumes "parseCommand l u st = Inr (i, st1)"
  shows "registered st1 = registered st" "commands st1 = commands st"
    "commands_count st1 = commands_count st" "calls st1 = calls st"
    "input_line st1 = input_line st" "input_pos st1 = input_pos st"
  using parseCommand_shell [OF assms] by (simp_all add: println_def registered_def)

lemma unsupported_eq:
  "println (CHR 0x27 # '' not supported. Available commands :'') (print l (print [CHR 0x27] st1)) =
     unsupported l st1"
  by (simp add: unsupported_def print_def println_def)

lemma execute_cases:
  assumes "parseCommand l u st = Inr (input, st1)"
  shows "execute u l st =
           (case execute_loop input (registered st) st1 of
              Some st2 \<Rightarrow> Inr st2
            | None \<Rightarrow> Inr (listAvailableCommands (unsupported l st1)))"
  using assms parseCommand_registered [OF assms]
  by (simp add: execute_def registered_def unsupported_eq split: option.split)

lemma listAvailableCommands_fields:
  "commands_count (listAvailableCommands st) = commands_count st"
  "calls (listAvailableCommands st) = calls st"
  "input_line (listAvailableCommands st) = input_line st"
  "input_pos (listAvailableCommands st) = input_pos st"
  "serial (listAvailableCommands st) =
     serial st @ concat (map print_command (registered (listAvailableCommands st)))"
  "drop (commands_count st) (commands (listAvailableCommands st)) = drop (commands_count st) (commands st)"
  by (simp_all add: listAvailableCommands_def registered_def print_def Let_def length_qsort
      min_def)

lemma unsupported_fields:
  "commands (unsupported l st) = commands st"
  "commands_count (unsupported l st) = commands_count st"
  "calls (unsupported l st) = calls st"
  "input_line (unsupported l st) = input_line st"
  "input_pos (unsupported l st) = input_pos st"
  "registered (unsupported l st) = registered st"
  "serial (unsupported l st) =
     serial st @ [CHR 0x27] @ l @ CHR 0x27 # '' not supported. Available commands :'' @ CRLF"
  by (simp_all add: unsupported_def registered_def)

lemma execute_result:
  assumes p: "parseCommand l u st = Inr (input, st1)"
  shows "(\<exists>pre c post. registered st = pre @ c # post \<and> (\<forall>x\<in>set pre. \<not> fits input x) \<and> fits input c \<and>
            execute u l st = Inr (st1\<lparr>serial := serial st1 @ call_trace input,
                                       calls := calls st1 @ [handler_call input c]\<rparr>)) \<or>
         ((\<forall>c\<in>set (registered st). \<not> fits input c) \<and>
            execute u l st = Inr (listAvailableCommands (unsupported l st1)))"
proof (cases "execute_loop input (registered st) st1")
  case None
  then have "\<forall>c\<in>set (registered st). \<not> fits input c"
    by (simp add: execute_loop_None)
  moreover from None have "execute u l st = Inr (listAvailableCommands (unsupported l st1))"
    by (simp add: execute_cases [OF p])
  ultimately show ?thesis by blast
next
  case (Some st2)
  from execute_loop_Some [OF Some] obtain pre c post where
    h: "registered st = pre @ c # post" "\<forall>x\<in>set pre. \<not> fits input x" "fits input c"
       "st2 = st1\<lparr>serial := serial st1 @ call_trace input, calls := calls st1 @ [handler_call input c]\<rparr>"
    by blast
  from Some have "execute u l st = Inr st2"
    by (simp add: execute_cases [OF p])
  with h show ?thesis by blast
qed

lemma execute_Inr_parse:
  "execute u l st = Inr st' \<Longrightarrow> \<exists>input st1. parseCommand l u st = Inr (input, st1)"
  by (cases "parseCommand l u st") (auto simp: execute_def)

lemma execute_frame:
  assumes e: "execute u l st = Inr st'"
  shows "commands_count st' = commands_count st \<and> input_line st' = input_line st \<and>
         input_pos st' = input_pos st \<and> mset (registered st') = mset (registered st) \<and>
         drop (commands_count st) (commands st') = drop (commands_count st) (commands st) \<and>
         (calls st' \<noteq> calls st \<longrightarrow> commands st' = commands st) \<and>
         (calls st' = calls st \<longrightarrow> registered st' = qsort compareCommandNames (registered st))"
proof -
  from execute_Inr_parse [OF e] obtain input st1 where p: "parseCommand l u st = Inr (input, st1)"
    by blast
  note f = parseCommand_registered [OF p]
  from execute_result [OF p] show ?thesis
  proof
    assume "\<exists>pre c post. registered st = pre @ c # post \<and> (\<forall>x\<in>set pre. \<not> fits input x) \<and> fits input c \<and>
            execute u l st = Inr (st1\<lparr>serial := serial st1 @ call_trace input,
                                       calls := calls st1 @ [handler_call input c]\<rparr>)"
    then obtain c where "execute u l st = Inr (st1\<lparr>serial := serial st1 @ call_trace input,
                                       calls := calls st1 @ [handler_call input c]\<rparr>)"
      by blast
    with e have "st' = st1\<lparr>serial := serial st1 @ call_trace input,
                                       calls := calls st1 @ [handler_call input c]\<rparr>"
      by simp
    with f show ?thesis by (simp add: registered_def)
  next
    assume "(\<forall>c\<in>set (registered st). \<not> fits input c) \<and>
            execute u l st = Inr (listAvailableCommands (unsupported l st1))"
    with e have s: "st' = listAvailableCommands (unsupported l st1)" by simp
    have "registered st' = qsort compareCommandNames (registered st)"
      by (simp add: s registered_listAvailableCommands unsupported_fields f)
    moreover have "drop (commands_count st) (commands st') = drop (commands_count st) (commands st)"
      using listAvailableCommands_fields(6) [of "unsupported l st1"]
      by (simp add: s unsupported_fields f)
    ultimately show ?thesis
      by (simp add: s listAvailableCommands_fields unsupported_fields f mset_qsort)
  qed
qed


lemmas parse_defs = parseCommand_def strlcpy_def size_t_def MAX_COMMAND_SIZE_def strtol_def
  deref_def NUL_def isspace_def digit_value_def LONG_MAX_def LONG_MIN_def




subsection \<open>The help listing\<close>

text \<open>
  Claim C8. The help listing, which \<open>execute\<close> prints for a line it cannot dispatch,
  prints every registered entry once (the printed entries are a permutation of the
  table's), each as two spaces, the name, a space, the documentation and a full stop on
  a line of its own, in ascending order of \<open>strcmp\<close> on the names. That order is the
  lexicographic order of the names' bytes read as unsigned numbers: total, transitive,
  and with \<open>strcmp\<close> zero only for equal names.
\<close>

theorem help_listing_sorted:
  "serial (listAvailableCommands st) =
     serial st @ concat (map (\<lambda>c. ''  '' @ name c @ '' '' @ doc c @ ''.'' @ CRLF)
                          (registered (listAvailableCommands st))) \<and>
   mset (registered (listAvailableCommands st)) = mset (registered st) \<and>
   sorted_wrt (\<lambda>a b. strcmp (name a) (name b) \<le> 0) (registered (listAvailableCommands st)) \<and>
   (strcmp x y < 0) = ((cstr x, cstr y) \<in> lexord {(a, b). (of_char a :: nat) < of_char b}) \<and>
   (strcmp x y = 0) = (cstr x = cstr y) \<and>
   (strcmp x y \<le> 0 \<or> strcmp y x \<le> 0) \<and>
   (strcmp x y \<le> 0 \<and> strcmp y z \<le> 0 \<longrightarrow> strcmp x z \<le> 0)"
proof -
  have "serial (listAvailableCommands st) =
     serial st @ concat (map (\<lambda>c. ''  '' @ name c @ '' '' @ doc c @ ''.'' @ CRLF)
                          (registered (listAvailableCommands st)))"
  proof -
    have "print_command = (\<lambda>c. ''  '' @ name c @ '' '' @ doc c @ ''.'' @ CRLF)"
      by (rule ext) (simp add: print_command_def)
    with listAvailableCommands_fields(5) [of st] show ?thesis by simp
  qed
  moreover have "strcmp x y \<le> 0 \<or> strcmp y x \<le> 0"
    using strcmp_swap [of y x] by linarith
  moreover have "strcmp x y \<le> 0 \<and> strcmp y z \<le> 0 \<longrightarrow> strcmp x z \<le> 0"
    using strcmp_trans by blast
  ultimately show ?thesis
    by (simp add: registered_listAvailableCommands mset_qsort sorted_by_name strcmp_eq_0_iff
        strcmp_lexord)
qed

theorem help_listing_sorted_witness:
  "map name (registered (listAvailableCommands (defineShellCommands initial_shell))) =
     [''ap'', ''ap_pwd'', ''name'', ''reset'', ''reset_config'', ''save_config'', ''ssid'',
      ''wifi'', ''wifi_pwd''] \<and>
   sorted_wrt (\<lambda>a b. strcmp (name a) (name b) \<le> 0)
     (registered (listAvailableCommands (defineShellCommands initial_shell))) \<and>
   strcmp ''ap'' ''ap_pwd'' \<le> 0"
proof -
  have a: "map name (registered (listAvailableCommands (defineShellCommands initial_shell))) =
     [''ap'', ''ap_pwd'', ''name'', ''reset'', ''reset_config'', ''save_config'', ''ssid'',
      ''wifi'', ''wifi_pwd'']"
    by code_simp
  have b: "strcmp ''ap'' ''ap'' \<le> 0 \<and> strcmp ''ap'' ''ap_pwd'' \<le> 0" by simp
  from help_listing_sorted [of "defineShellCommands initial_shell" "''ap''" "''ap''" "''ap_pwd''"] a b
  show ?thesis by blast
qed

subsection \<open>Lines that fit the parser\<close>

lemma strchr_Some:
  "strchr l c = Some i \<Longrightarrow> c \<noteq> NUL \<Longrightarrow> i < length l \<and> l ! i = c \<and> c \<notin> set (take i l)"
proof (induction l arbitrary: i)
  case Nil
  then show ?case by simp
next
  case (Cons x xs)
  show ?case
  proof (cases "x = c")
    case True
    with Cons.prems show ?thesis by simp
  next
    case False
    with Cons.prems obtain j where j: "strchr xs c = Some j" "i = Suc j"
      by auto
    from Cons.IH [OF j(1) Cons.prems(2)] j(2) False show ?thesis by auto
  qed
qed

lemma space_not_NUL: "CHR 0x20 \<noteq> NUL"
  by (simp add: NUL_def)

lemma size_t_small: "0 \<le> i \<Longrightarrow> i < 2 ^ 32 \<Longrightarrow> size_t i = nat i"
  by (simp add: size_t_def)

lemma parseCommand_no_space:
  assumes "l \<noteq> []" "strchr l CHR 0x20 = None"
  shows "parseCommand l u st =
           Inr (u\<lparr>argument_type := NONE, function_name := take (MAX_COMMAND_SIZE - 1) l\<rparr>, st)"
  using assms by (simp add: parseCommand_def strlcpy_def MAX_COMMAND_SIZE_def)

lemma parseCommand_space:
  assumes "strchr l CHR 0x20 = Some i" "i < MAX_COMMAND_SIZE - 1"
  shows "parseCommand l u st =
           Inr (u\<lparr>function_name := take i l,
                  str_argument := take (MAX_COMMAND_SIZE - 2 - i) (drop (Suc i) l),
                  int_argument := fst (strtol (take (MAX_COMMAND_SIZE - 2 - i) (drop (Suc i) l))),
                  argument_type :=
                    (if deref (snd (strtol (take (MAX_COMMAND_SIZE - 2 - i) (drop (Suc i) l)))) \<noteq> NUL
                     then STRING else INT32)\<rparr>, st)"
proof -
  from strchr_Some [OF assms(1) space_not_NUL] have il: "i < length l" by simp
  then have ne: "l \<noteq> []" by auto
  have s1: "size_t (int i + 1) = Suc i"
    using assms(2) by (simp add: size_t_small MAX_COMMAND_SIZE_def)
  have s2: "size_t (int MAX_COMMAND_SIZE - int i - 1) = MAX_COMMAND_SIZE - Suc i"
    using assms(2) by (simp add: size_t_small MAX_COMMAND_SIZE_def)
  have c1: "strlcpy MAX_COMMAND_SIZE (function_name u) l (Suc i) = Inr (take i l)"
    using assms(2) il by (simp add: strlcpy_def MAX_COMMAND_SIZE_def)
  have c2: "strlcpy MAX_COMMAND_SIZE (str_argument u) (drop (Suc i) l) (MAX_COMMAND_SIZE - Suc i) =
              Inr (take (MAX_COMMAND_SIZE - 2 - i) (drop (Suc i) l))"
    using assms(2) il by (auto simp: strlcpy_def MAX_COMMAND_SIZE_def)
  show ?thesis
    using ne assms(1)
    by (simp add: parseCommand_def s1 s2 c1 c2 split_beta Let_def)
qed

lemma parseCommand_ok:
  assumes "length l < MAX_COMMAND_SIZE"
  shows "\<exists>input st1. parseCommand l u st = Inr (input, st1)"
proof (cases "l = []")
  case True
  then show ?thesis by (simp add: parseCommand_def)
next
  case False
  show ?thesis
  proof (cases "strchr l CHR 0x20")
    case None
    from parseCommand_no_space [OF False None] show ?thesis by blast
  next
    case (Some i)
    from strchr_Some [OF Some space_not_NUL] assms have "i < MAX_COMMAND_SIZE - 1"
      by (simp add: MAX_COMMAND_SIZE_def)
    from parseCommand_space [OF Some this] show ?thesis by blast
  qed
qed

lemma execute_ok:
  assumes "length l < MAX_COMMAND_SIZE"
  shows "\<exists>st'. execute u l st = Inr st'"
proof -
  from parseCommand_ok [OF assms] obtain input st1 where "parseCommand l u st = Inr (input, st1)"
    by blast
  from execute_result [OF this] show ?thesis by blast
qed

lemma takeWhile_append_stop:
  "\<not> P y \<Longrightarrow> takeWhile P (xs @ y # ys) = takeWhile P xs"
  by (induction xs) auto

lemma cstr_store_NUL:
  assumes "i < length buf"
  shows "cstr (buf[i := NUL]) = cstr (take i buf)"
proof -
  from assms have "buf[i := NUL] = take i buf @ NUL # drop (Suc i) buf"
    by (rule upd_conv_take_nth_drop)
  then show ?thesis by (simp add: cstr_def takeWhile_append_stop)
qed

lemma length_cstr_take: "length (cstr (take i buf)) \<le> i"
proof -
  have "length (cstr (take i buf)) \<le> length (take i buf)"
    unfolding cstr_def by (rule length_takeWhile_le)
  then show ?thesis by simp
qed

subsection \<open>The parser on particular lines\<close>

lemma parse_ap_space:
  "parseCommand ''ap '' stale_input st =
     Inr (\<lparr>function_name = ''ap'', argument_type = INT32, int_argument = 0, str_argument = []\<rparr>, st)"
  by (simp add: parse_defs stale_input_def)

lemma loop_ap_space:
  "map_option (\<lambda>s. (calls s, serial s))
     (execute_loop \<lparr>function_name = ''ap'', argument_type = INT32, int_argument = 0, str_argument = []\<rparr>
       (registered (defineShellCommands initial_shell)) (defineShellCommands initial_shell)) =
     Some ([CallInt 8 0], ''Calling : ap(0)'' @ CRLF)"
  by code_simp

text \<open>
  Claim C1 says that a command name followed by one space and nothing else gets an
  argument of kind Text with the empty string as its value. The code gives it kind
  Integer with value 0: \<open>strtol\<close> converts nothing, leaves \<open>end\<close> at the start of the
  empty argument, and the test \<open>*end\<close> finds the terminator there. With the sketch's
  commands the line \<open>ap\<close> and a space calls the handler of \<open>ap\<close> with 0.
\<close>

theorem parseCommand_trailing_space:
  "parseCommand ''ap '' stale_input initial_shell =
     Inr (\<lparr>function_name = ''ap'', argument_type = INT32, int_argument = 0, str_argument = []\<rparr>,
          initial_shell) \<and>
   map_sum id (\<lambda>s. (calls s, serial s))
     (execute stale_input ''ap '' (defineShellCommands initial_shell)) =
     Inr ([CallInt 8 0], ''Calling : ap(0)'' @ CRLF)"
proof -
  let ?sh = "defineShellCommands initial_shell"
  from loop_ap_space obtain z where
    z: "execute_loop \<lparr>function_name = ''ap'', argument_type = INT32, int_argument = 0, str_argument = []\<rparr>
          (registered ?sh) ?sh = Some z"
       "calls z = [CallInt 8 0]" "serial z = ''Calling : ap(0)'' @ CRLF"
    by auto
  from z(1) have "execute stale_input ''ap '' ?sh = Inr z"
    by (simp add: execute_cases [OF parse_ap_space])
  with z(2) z(3) parse_ap_space [of initial_shell] show ?thesis by simp
qed

text \<open>
  Claim C3 says that the copy of the name never writes past \<open>function_name\<close>, for a line
  of any length. With a space in the line the code gives \<open>strlcpy\<close> the length of the
  name plus one as its bound, not the size of the buffer: a name of 40 characters writes
  41 bytes into the 40.
\<close>

theorem parseCommand_long_name:
  "parseCommand (replicate 40 CHR ''a'' @ '' 1'') stale_input initial_shell = Inl BufferOverflow"
  by (simp add: parse_defs stale_input_def numeral_eq_Suc)

subsection \<open>The empty line\<close>


text \<open>
  Claim C2 says that the empty line is ignored in silence: no handler, no notice, no
  help listing. In the code \<open>execute\<close> goes on to the loop after \<open>parseCommand\<close> has
  returned early. With the sketch's nine commands: if the stack slot still spells
  \<open>reset\<close>, the handler of \<open>reset\<close> is called; if it holds the empty string, the notice
  and the whole listing are printed. The empty line arrives from the serial port as a
  lone line feed.
\<close>

theorem execute_empty_line:
  "map_sum id (\<lambda>s. (calls s, serial s))
     (execute stale_input [] (defineShellCommands initial_shell)) =
     Inr ([CallVoid 1], ''Received empty command'' @ CRLF @ ''Calling : reset()'' @ CRLF) \<and>
   map_sum id (\<lambda>s. (calls s, serial s))
     (execute (stale_input\<lparr>function_name := []\<rparr>) [] (defineShellCommands initial_shell)) =
     Inr ([], ''Received empty command'' @ CRLF
       @ [CHR 0x27, CHR 0x27] @ '' not supported. Available commands :'' @ CRLF
       @ ''  ap 0/1 (Enables/disables access point).'' @ CRLF
       @ ''  ap_pwd abc (Sets AP password to abc).'' @ CRLF
       @ ''  name abc (Sets ThingName to abc).'' @ CRLF
       @ ''  reset (Restarts the ESP).'' @ CRLF
       @ ''  reset_config (Resets the complete IotWeb config).'' @ CRLF
       @ ''  save_config (Saves the config to EEPROM).'' @ CRLF
       @ ''  ssid name (Sets SSID to name).'' @ CRLF
       @ ''  wifi 0/1 (Enables/disables WiFi).'' @ CRLF
       @ ''  wifi_pwd abc (Sets WiFi password to abc).'' @ CRLF) \<and>
   map_sum id calls
     (checkSerialInput (\<lambda>s. stale_input) [CHR 0x0A] (defineShellCommands initial_shell)) =
     Inr [CallVoid 1]"
  by code_simp

subsection \<open>The line assembler\<close>

lemma execute_frame_fields:
  assumes "execute u l st = Inr st'"
  shows "commands_count st' = commands_count st" "input_line st' = input_line st"
    "input_pos st' = input_pos st" "mset (registered st') = mset (registered st)"
  using execute_frame [OF assms] by blast+

lemma registered_input_fields:
  "registered (st\<lparr>input_pos := p\<rparr>) = registered st"
  "registered (st\<lparr>input_line := l\<rparr>) = registered st"
  "registered (st\<lparr>serial := t\<rparr>) = registered st"
  by (simp_all add: registered_def)

lemma processSerialInput_newline:
  assumes "input_pos st < length (input_line st)"
  shows "processSerialInput u (CHR 0x0A) st =
           (case execute u (cstr (take (input_pos st) (input_line st)))
                   ((println [] st)\<lparr>input_line := (input_line st)[input_pos st := NUL]\<rparr>) of
              Inl e \<Rightarrow> Inl e
            | Inr st1 \<Rightarrow> Inr (st1\<lparr>input_pos := 0\<rparr>))"
  using assms by (simp add: processSerialInput_def store_def cstr_store_NUL)

lemma processSerialInput_ordinary:
  assumes "ordinary b" "input_pos st < MAX_COMMAND_SIZE - 1" "length (input_line st) = MAX_COMMAND_SIZE"
  shows "processSerialInput u b st =
           Inr (st\<lparr>input_line := (input_line st)[input_pos st := b],
                    input_pos := input_pos st + 1,
                    serial := serial st @ (if input_pos st = 0 then ''> '' else []) @ [b]\<rparr>)"
  using assms
  by (simp add: processSerialInput_def ordinary_def store_def print_def Let_def MAX_COMMAND_SIZE_def)

lemma processSerialInput_full:
  assumes "ordinary b" "input_pos st = MAX_COMMAND_SIZE - 1"
  shows "processSerialInput u b st = Inr st"
  using assms
  by (simp add: processSerialInput_def ordinary_def Let_def MAX_COMMAND_SIZE_def)

lemma processSerialInput_inv:
  assumes "length (input_line st) = MAX_COMMAND_SIZE" "input_pos st \<le> MAX_COMMAND_SIZE - 1"
  shows "\<exists>st'. processSerialInput u b st = Inr st' \<and>
           length (input_line st') = MAX_COMMAND_SIZE \<and> input_pos st' \<le> MAX_COMMAND_SIZE - 1 \<and>
           commands_count st' = commands_count st \<and>
           mset (registered st') = mset (registered st)"
proof (cases "ordinary b")
  case True
  show ?thesis
  proof (cases "input_pos st = MAX_COMMAND_SIZE - 1")
    case True
    with processSerialInput_full [OF \<open>ordinary b\<close> True] assms show ?thesis by simp
  next
    case False
    with assms have lt: "input_pos st < MAX_COMMAND_SIZE - 1" by simp
    from processSerialInput_ordinary [OF True lt assms(1)] assms lt show ?thesis
      by (simp add: registered_def)
  qed
next
  case False
  then consider "b = CHR 0x0A" | "b = CHR 0x0D" | "b = CHR 0x08"
    by (auto simp: ordinary_def)
  then show ?thesis
  proof cases
    case 1
    from assms have lt: "input_pos st < length (input_line st)"
      by (simp add: MAX_COMMAND_SIZE_def)
    let ?l = "cstr (take (input_pos st) (input_line st))"
    let ?s = "(println [] st)\<lparr>input_line := (input_line st)[input_pos st := NUL]\<rparr>"
    have "length ?l < MAX_COMMAND_SIZE"
      using length_cstr_take [of "input_pos st" "input_line st"] assms(2)
      by (simp add: MAX_COMMAND_SIZE_def)
    from execute_ok [OF this] obtain st1 where e: "execute u ?l ?s = Inr st1" by blast
    note f = execute_frame_fields [OF e]
    have r: "registered ?s = registered st"
      by (simp add: registered_def println_def)
    have "length (input_line (st1\<lparr>input_pos := 0\<rparr>)) = MAX_COMMAND_SIZE"
      using f(2) assms(1) by simp
    moreover have "input_pos (st1\<lparr>input_pos := 0\<rparr>) \<le> MAX_COMMAND_SIZE - 1"
      by simp
    moreover have "commands_count (st1\<lparr>input_pos := 0\<rparr>) = commands_count st"
      using f(1) by (simp add: println_def)
    moreover have "mset (registered (st1\<lparr>input_pos := 0\<rparr>)) = mset (registered st)"
      using f(4) r by (simp add: registered_input_fields)
    ultimately
    have "length (input_line (st1\<lparr>input_pos := 0\<rparr>)) = MAX_COMMAND_SIZE \<and>
          input_pos (st1\<lparr>input_pos := 0\<rparr>) \<le> MAX_COMMAND_SIZE - 1 \<and>
          commands_count (st1\<lparr>input_pos := 0\<rparr>) = commands_count st \<and>
          mset (registered (st1\<lparr>input_pos := 0\<rparr>)) = mset (registered st)"
      by blast
    with e 1 processSerialInput_newline [OF lt, of u] show ?thesis by simp
  next
    case 2
    with assms show ?thesis by (simp add: processSerialInput_def)
  next
    case 3
    with assms show ?thesis
      by (auto simp: processSerialInput_def print_def registered_def)
  qed
qed

lemma checkSerialInput_inv:
  assumes "length (input_line st) = MAX_COMMAND_SIZE" "input_pos st \<le> MAX_COMMAND_SIZE - 1"
  shows "\<exists>st'. checkSerialInput residue bs st = Inr st' \<and>
           length (input_line st') = MAX_COMMAND_SIZE \<and> input_pos st' \<le> MAX_COMMAND_SIZE - 1 \<and>
           commands_count st' = commands_count st \<and>
           mset (registered st') = mset (registered st)"
  using assms
proof (induction bs arbitrary: st)
  case Nil
  then show ?case by simp
next
  case (Cons b bs)
  from processSerialInput_inv [OF Cons.prems, of "residue st" b] obtain st1 where
    s: "processSerialInput (residue st) b st = Inr st1"
       "length (input_line st1) = MAX_COMMAND_SIZE" "input_pos st1 \<le> MAX_COMMAND_SIZE - 1"
       "commands_count st1 = commands_count st" "mset (registered st1) = mset (registered st)"
    by blast
  from Cons.IH [OF s(2) s(3)] s(1) s(4) s(5) show ?case by auto
qed

lemma checkSerialInput_ordinary:
  assumes "length (input_line st) = MAX_COMMAND_SIZE" "input_pos st \<le> MAX_COMMAND_SIZE - 1"
    "list_all ordinary bs"
  shows "\<exists>st'. checkSerialInput residue bs st = Inr st' \<and>
           input_pos st' = min (MAX_COMMAND_SIZE - 1) (input_pos st + length bs) \<and>
           take (input_pos st') (input_line st') =
             take (MAX_COMMAND_SIZE - 1) (take (input_pos st) (input_line st) @ bs) \<and>
           length (input_line st') = MAX_COMMAND_SIZE \<and>
           commands st' = commands st \<and> commands_count st' = commands_count st \<and>
           calls st' = calls st"
  using assms
proof (induction bs arbitrary: st)
  case Nil
  then show ?case by simp
next
  case (Cons b bs)
  then have ob: "ordinary b" and obs: "list_all ordinary bs" by simp_all
  show ?case
  proof (cases "input_pos st = MAX_COMMAND_SIZE - 1")
    case True
    from processSerialInput_full [OF ob True]
    have p: "processSerialInput (residue st) b st = Inr st" .
    from Cons.IH [OF Cons.prems(1) Cons.prems(2) obs] obtain st' where
      h: "checkSerialInput residue bs st = Inr st'"
        "input_pos st' = min (MAX_COMMAND_SIZE - 1) (input_pos st + length bs)"
        "take (input_pos st') (input_line st') =
             take (MAX_COMMAND_SIZE - 1) (take (input_pos st) (input_line st) @ bs)"
        "length (input_line st') = MAX_COMMAND_SIZE"
        "commands st' = commands st" "commands_count st' = commands_count st" "calls st' = calls st"
      by blast
    from h True Cons.prems(1) p show ?thesis
      by (simp add: MAX_COMMAND_SIZE_def)
  next
    case False
    with Cons.prems have lt: "input_pos st < MAX_COMMAND_SIZE - 1" by simp
    let ?s1 = "st\<lparr>input_line := (input_line st)[input_pos st := b],
                    input_pos := input_pos st + 1,
                    serial := serial st @ (if input_pos st = 0 then ''> '' else []) @ [b]\<rparr>"
    from processSerialInput_ordinary [OF ob lt Cons.prems(1)]
    have p: "processSerialInput (residue st) b st = Inr ?s1" .
    have l1: "length (input_line ?s1) = MAX_COMMAND_SIZE" using Cons.prems(1) by simp
    have p1: "input_pos ?s1 \<le> MAX_COMMAND_SIZE - 1" using lt by simp
    from Cons.IH [OF l1 p1 obs] obtain st' where
      h: "checkSerialInput residue bs ?s1 = Inr st'"
        "input_pos st' = min (MAX_COMMAND_SIZE - 1) (input_pos ?s1 + length bs)"
        "take (input_pos st') (input_line st') =
             take (MAX_COMMAND_SIZE - 1) (take (input_pos ?s1) (input_line ?s1) @ bs)"
        "length (input_line st') = MAX_COMMAND_SIZE"
        "commands st' = commands ?s1" "commands_count st' = commands_count ?s1" "calls st' = calls ?s1"
      by blast
    have t: "take (input_pos ?s1) (input_line ?s1) = take (input_pos st) (input_line st) @ [b]"
      using lt Cons.prems(1) by (simp add: take_Suc_conv_app_nth MAX_COMMAND_SIZE_def)
    have e3: "take (input_pos st') (input_line st') =
             take (MAX_COMMAND_SIZE - 1) (take (input_pos st) (input_line st) @ b # bs)"
      using h(3) by (simp only: t append_assoc append_Cons append_Nil)
    have e2: "input_pos st' = min (MAX_COMMAND_SIZE - 1) (input_pos st + length (b # bs))"
      using h(2) by simp
    have c: "checkSerialInput residue (b # bs) st = Inr st'"
      using p h(1) by simp
    have e5: "commands st' = commands st" "commands_count st' = commands_count st"
      "calls st' = calls st"
      using h(5) h(6) h(7) by simp_all
    from c e2 e3 h(4) e5 show ?thesis by blast
  qed
qed

text \<open>
  Claim C9. Whatever bytes are fed to the line assembler, no write leaves the line
  buffer (the run never ends in an error) and the cursor stays at most
  \<open>MAX_COMMAND_SIZE - 1\<close>. With the cursor at \<open>MAX_COMMAND_SIZE - 1\<close> an ordinary byte
  changes nothing, not even the serial output. A run of ordinary bytes from an empty
  line leaves the first \<open>MAX_COMMAND_SIZE - 1\<close> of them in the buffer, and the line
  feed that follows hands exactly these, up to a NUL among them, to \<open>execute\<close>.
\<close>

theorem line_assembler_bounded:
  assumes "length (input_line st) = MAX_COMMAND_SIZE" "input_pos st \<le> MAX_COMMAND_SIZE - 1"
  shows "(\<exists>st'. checkSerialInput residue bytes st = Inr st' \<and>
            length (input_line st') = MAX_COMMAND_SIZE \<and> input_pos st' \<le> MAX_COMMAND_SIZE - 1) \<and>
         (ordinary b \<and> input_pos st = MAX_COMMAND_SIZE - 1 \<longrightarrow>
            processSerialInput input0 b st = Inr st) \<and>
         (list_all ordinary bytes \<and> input_pos st = 0 \<longrightarrow>
            (\<exists>st'. checkSerialInput residue bytes st = Inr st' \<and>
               input_pos st' = min (MAX_COMMAND_SIZE - 1) (length bytes) \<and>
               take (input_pos st') (input_line st') = take (MAX_COMMAND_SIZE - 1) bytes \<and>
               processSerialInput input0 (CHR 0x0A) st' =
                 (case execute input0 (cstr (take (MAX_COMMAND_SIZE - 1) bytes))
                         ((println [] st')\<lparr>input_line := (input_line st')[input_pos st' := NUL]\<rparr>) of
                    Inl e \<Rightarrow> Inl e
                  | Inr st1 \<Rightarrow> Inr (st1\<lparr>input_pos := 0\<rparr>))))"
proof (intro conjI impI)
  from checkSerialInput_inv [OF assms, of residue bytes]
  show "\<exists>st'. checkSerialInput residue bytes st = Inr st' \<and>
            length (input_line st') = MAX_COMMAND_SIZE \<and> input_pos st' \<le> MAX_COMMAND_SIZE - 1"
    by blast
next
  assume "ordinary b \<and> input_pos st = MAX_COMMAND_SIZE - 1"
  then show "processSerialInput input0 b st = Inr st"
    by (simp add: processSerialInput_full)
next
  assume a: "list_all ordinary bytes \<and> input_pos st = 0"
  then have o: "list_all ordinary bytes" and z: "input_pos st = 0" by simp_all
  from checkSerialInput_ordinary [OF assms o, of residue] obtain st' where
    h: "checkSerialInput residue bytes st = Inr st'"
       "input_pos st' = min (MAX_COMMAND_SIZE - 1) (input_pos st + length bytes)"
       "take (input_pos st') (input_line st') =
             take (MAX_COMMAND_SIZE - 1) (take (input_pos st) (input_line st) @ bytes)"
       "length (input_line st') = MAX_COMMAND_SIZE"
    by blast
  from h(2) z have p: "input_pos st' = min (MAX_COMMAND_SIZE - 1) (length bytes)" by simp
  from h(3) z have t: "take (input_pos st') (input_line st') = take (MAX_COMMAND_SIZE - 1) bytes"
    by simp
  from p h(4) have lt: "input_pos st' < length (input_line st')"
    by (simp add: MAX_COMMAND_SIZE_def)
  have n: "processSerialInput input0 (CHR 0x0A) st' =
                 (case execute input0 (cstr (take (MAX_COMMAND_SIZE - 1) bytes))
                         ((println [] st')\<lparr>input_line := (input_line st')[input_pos st' := NUL]\<rparr>) of
                    Inl e \<Rightarrow> Inl e
                  | Inr st1 \<Rightarrow> Inr (st1\<lparr>input_pos := 0\<rparr>))"
    using processSerialInput_newline [OF lt, of input0] by (simp only: t)
  from h(1) p t n
  show "\<exists>st'. checkSerialInput residue bytes st = Inr st' \<and>
               input_pos st' = min (MAX_COMMAND_SIZE - 1) (length bytes) \<and>
               take (input_pos st') (input_line st') = take (MAX_COMMAND_SIZE - 1) bytes \<and>
               processSerialInput input0 (CHR 0x0A) st' =
                 (case execute input0 (cstr (take (MAX_COMMAND_SIZE - 1) bytes))
                         ((println [] st')\<lparr>input_line := (input_line st')[input_pos st' := NUL]\<rparr>) of
                    Inl e \<Rightarrow> Inl e
                  | Inr st1 \<Rightarrow> Inr (st1\<lparr>input_pos := 0\<rparr>))"
    by blast
qed

theorem line_assembler_bounded_witness:
  "length (input_line initial_shell) = MAX_COMMAND_SIZE \<and>
   input_pos initial_shell \<le> MAX_COMMAND_SIZE - 1 \<and>
   (\<exists>st'. checkSerialInput (\<lambda>s. stale_input) (replicate 50 CHR ''z'') initial_shell = Inr st' \<and>
      input_pos st' = 39 \<and> take (input_pos st') (input_line st') = replicate 39 CHR ''z'')"
proof -
  have l: "length (input_line initial_shell) = MAX_COMMAND_SIZE"
    by (simp add: initial_shell_def)
  have p: "input_pos initial_shell \<le> MAX_COMMAND_SIZE - 1"
    by (simp add: initial_shell_def)
  have o: "list_all ordinary (replicate 50 CHR ''z'') \<and> input_pos initial_shell = 0"
    by (simp add: initial_shell_def ordinary_def list_all_iff)
  from line_assembler_bounded [OF l p, of "\<lambda>s. stale_input" "replicate 50 CHR ''z''"] o
  obtain st' where
    h: "checkSerialInput (\<lambda>s. stale_input) (replicate 50 CHR ''z'') initial_shell = Inr st'"
       "input_pos st' = min (MAX_COMMAND_SIZE - 1) (length (replicate 50 CHR ''z''))"
       "take (input_pos st') (input_line st') = take (MAX_COMMAND_SIZE - 1) (replicate 50 CHR ''z'')"
    by blast
  from h(2) have "input_pos st' = 39" by (simp add: MAX_COMMAND_SIZE_def)
  moreover from h(3) have "take (input_pos st') (input_line st') = replicate 39 CHR ''z''"
    by (simp add: MAX_COMMAND_SIZE_def)
  ultimately show ?thesis using l p h(1) by blast
qed

subsection \<open>The table after setup\<close>

text \<open>
  Claim C7 says that after setup no operation of the shell changes the table, the
  order of its entries included. The help listing sorts the array in place, and
  \<open>execute\<close> prints it for every line it cannot dispatch, so the order does change.
  What holds: no operation adds, removes or alters an entry. The count and the
  multiset of the entries in use are kept by the help listing, by \<open>execute\<close> and by
  the line assembler; an \<open>execute\<close> that calls a handler leaves the array as it is;
  one that does not leaves the entries in use in ascending order of \<open>strcmp\<close> on their
  names (the order among entries of equal name is left open).
\<close>

theorem registry_entries_kept:
  "commands_count (listAvailableCommands st) = commands_count st \<and>
   mset (registered (listAvailableCommands st)) = mset (registered st) \<and>
   sorted_wrt (\<lambda>a b. strcmp (name a) (name b) \<le> 0) (registered (listAvailableCommands st)) \<and>
   (execute input0 line st = Inr st' \<longrightarrow>
      commands_count st' = commands_count st \<and>
      mset (registered st') = mset (registered st) \<and>
      (calls st' \<noteq> calls st \<longrightarrow> commands st' = commands st) \<and>
      (calls st' = calls st \<longrightarrow>
         sorted_wrt (\<lambda>a b. strcmp (name a) (name b) \<le> 0) (registered st'))) \<and>
   (length (input_line st) = MAX_COMMAND_SIZE \<and> input_pos st \<le> MAX_COMMAND_SIZE - 1 \<and>
    checkSerialInput residue bytes st = Inr st'' \<longrightarrow>
      commands_count st'' = commands_count st \<and>
      mset (registered st'') = mset (registered st))"
proof (intro conjI impI)
  show "commands_count (listAvailableCommands st) = commands_count st"
    by (simp add: listAvailableCommands_fields)
  show "mset (registered (listAvailableCommands st)) = mset (registered st)"
    by (simp add: registered_listAvailableCommands mset_qsort)
  show "sorted_wrt (\<lambda>a b. strcmp (name a) (name b) \<le> 0) (registered (listAvailableCommands st))"
    by (simp add: registered_listAvailableCommands sorted_by_name)
next
  assume e: "execute input0 line st = Inr st'"
  from execute_frame [OF e] show "commands_count st' = commands_count st" by blast
  from execute_frame [OF e] show "mset (registered st') = mset (registered st)" by blast
  { assume "calls st' \<noteq> calls st"
    with execute_frame [OF e] show "commands st' = commands st" by blast }
  { assume "calls st' = calls st"
    with execute_frame [OF e] have "registered st' = qsort compareCommandNames (registered st)"
      by blast
    then show "sorted_wrt (\<lambda>a b. strcmp (name a) (name b) \<le> 0) (registered st')"
      by (simp add: sorted_by_name) }
next
  assume a: "length (input_line st) = MAX_COMMAND_SIZE \<and> input_pos st \<le> MAX_COMMAND_SIZE - 1 \<and>
    checkSerialInput residue bytes st = Inr st''"
  then have l: "length (input_line st) = MAX_COMMAND_SIZE" and p: "input_pos st \<le> MAX_COMMAND_SIZE - 1"
    and c: "checkSerialInput residue bytes st = Inr st''" by simp_all
  from checkSerialInput_inv [OF l p, of residue bytes] c
  show "commands_count st'' = commands_count st" by auto
  from checkSerialInput_inv [OF l p, of residue bytes] c
  show "mset (registered st'') = mset (registered st)" by auto
qed

theorem registry_entries_kept_witness:
  "\<exists>st'. execute stale_input ''help'' (defineShellCommands initial_shell) = Inr st' \<and>
     commands_count st' = 9 \<and>
     mset (registered st') = mset (registered (defineShellCommands initial_shell)) \<and>
     sorted_wrt (\<lambda>a b. strcmp (name a) (name b) \<le> 0) (registered st')"
proof -
  let ?sh = "defineShellCommands initial_shell"
  have "length ''help'' < MAX_COMMAND_SIZE" by (simp add: MAX_COMMAND_SIZE_def)
  from execute_ok [OF this] obtain st' where e: "execute stale_input ''help'' ?sh = Inr st'"
    by blast
  have c: "calls st' = calls ?sh"
  proof -
    have "map_sum id calls (execute stale_input ''help'' ?sh) = Inr []" by code_simp
    moreover have "calls ?sh = []" by code_simp
    ultimately show ?thesis using e by simp
  qed
  have n: "commands_count ?sh = 9" by code_simp
  from registry_entries_kept [of ?sh stale_input "''help''" st' "\<lambda>s. stale_input" "[]" ?sh] e
  have k: "commands_count st' = commands_count ?sh" "mset (registered st') = mset (registered ?sh)"
    "calls st' = calls ?sh \<longrightarrow> sorted_wrt (\<lambda>a b. strcmp (name a) (name b) \<le> 0) (registered st')"
    by blast+
  from k(1) n have "commands_count st' = 9" by simp
  moreover from k(3) c have "sorted_wrt (\<lambda>a b. strcmp (name a) (name b) \<le> 0) (registered st')"
    by simp
  ultimately show ?thesis using e k(2) by blast
qed

theorem registry_reordered_by_help:
  "map name (registered (defineShellCommands initial_shell)) =
     [''reset'', ''save_config'', ''reset_config'', ''ssid'', ''wifi_pwd'', ''ap_pwd'', ''name'',
      ''ap'', ''wifi''] \<and>
   map_sum id (\<lambda>s. map name (registered s))
     (execute stale_input ''help'' (defineShellCommands initial_shell)) =
     Inr [''ap'', ''ap_pwd'', ''name'', ''reset'', ''reset_config'', ''save_config'', ''ssid'',
          ''wifi'', ''wifi_pwd'']"
  by code_simp

subsection \<open>What strtol accepts\<close>

lemma sint_word_of_nat:
  "n < 2 ^ 31 \<Longrightarrow> sint (word_of_nat n :: 32 word) = int n"
proof -
  assume a: "n < 2 ^ 31"
  have "(word_of_nat n :: 32 word) = word_of_int (int n)" by simp
  then have "sint (word_of_nat n :: 32 word) = signed_take_bit 31 (int n)"
    by (simp only: sint_sbintrunc') simp
  also have "\<dots> = int n"
    using a by (intro signed_take_bit_int_eq_self) auto
  finally show ?thesis .
qed

lemma sint_neg_word_of_nat:
  "n \<le> 2 ^ 31 \<Longrightarrow> sint (- word_of_nat n :: 32 word) = - int n"
proof -
  assume a: "n \<le> 2 ^ 31"
  have "(- word_of_nat n :: 32 word) = word_of_int (- int n)" by simp
  then have "sint (- word_of_nat n :: 32 word) = signed_take_bit 31 (- int n)"
    by (simp only: sint_sbintrunc') simp
  also have "\<dots> = - int n"
    using a by (intro signed_take_bit_int_eq_self) auto
  finally show ?thesis .
qed

lemma sint_LONG: "sint LONG_MAX = 2 ^ 31 - 1" "sint LONG_MIN = - (2 ^ 31)"
  by (simp_all add: LONG_MAX_def LONG_MIN_def)

lemma cutoff_test:
  fixes acc cutoff cutlim d base :: nat
  assumes "d < base" "cutlim < base"
  shows "(cutoff < acc \<or> (acc = cutoff \<and> cutlim < d)) = (cutoff * base + cutlim < acc * base + d)"
proof (cases "acc < cutoff")
  case True
  then have "Suc acc * base \<le> cutoff * base" by (intro mult_le_mono1) simp
  with assms True show ?thesis by simp
next
  case False
  show ?thesis
  proof (cases "acc = cutoff")
    case True
    then show ?thesis by simp
  next
    case ne: False
    with False have gt: "cutoff < acc" by simp
    then have "Suc cutoff * base \<le> acc * base" by (intro mult_le_mono1) simp
    with assms gt show ?thesis by simp
  qed
qed

lemma digits_value_ge: "0 < b \<Longrightarrow> acc \<le> digits_value b acc ds"
proof (induction ds arbitrary: acc)
  case Nil
  then show ?case by simp
next
  case (Cons c cs)
  have "acc \<le> acc * b" using Cons.prems by simp
  also have "\<dots> \<le> acc * b + (case digit_value c of None \<Rightarrow> 0 | Some d \<Rightarrow> d)" by simp
  also have "\<dots> \<le> digits_value b (acc * b + (case digit_value c of None \<Rightarrow> 0 | Some d \<Rightarrow> d)) cs"
    by (rule Cons.IH [OF Cons.prems])
  finally show ?case by simp
qed

lemma strtol_digits_rest:
  "snd (snd (strtol_digits base cutoff cutlim acc any s)) = dropWhile (digit_in base) s"
  by (induction s arbitrary: acc any) (auto simp: digit_in_def split: option.splits)

lemma strtol_digits_any:
  "(fst (snd (strtol_digits base cutoff cutlim acc any s)) = 0) =
     (any = 0 \<and> takeWhile (digit_in base) s = [])"
  by (induction s arbitrary: acc any) (auto simp: digit_in_def split: option.splits)

lemma strtol_digits_neg:
  "any < 0 \<Longrightarrow> fst (snd (strtol_digits base cutoff cutlim acc any s)) < 0"
  by (induction s arbitrary: acc any) (auto split: option.splits)

lemma strtol_digits_value:
  assumes "0 < base" "cutlim < base" "0 \<le> any" "acc \<le> cutoff * base + cutlim"
  shows "(fst (snd (strtol_digits base cutoff cutlim acc any s)) < 0) =
           (cutoff * base + cutlim < digits_value base acc (takeWhile (digit_in base) s)) \<and>
         (0 \<le> fst (snd (strtol_digits base cutoff cutlim acc any s)) \<longrightarrow>
            fst (strtol_digits base cutoff cutlim acc any s) =
              digits_value base acc (takeWhile (digit_in base) s))"
  using assms(3,4)
proof (induction s arbitrary: acc any)
  case Nil
  then show ?case by simp
next
  case (Cons c s)
  show ?case
  proof (cases "digit_in base c")
    case False
    with Cons.prems show ?thesis
      by (auto simp: digit_in_def split: option.splits)
  next
    case True
    then obtain d where d: "digit_value c = Some d" "d < base"
      by (auto simp: digit_in_def split: option.splits)
    note t = cutoff_test [OF d(2) assms(2), of cutoff acc]
    have v: "digits_value base acc (takeWhile (digit_in base) (c # s)) =
               digits_value base (acc * base + d) (takeWhile (digit_in base) s)"
      using True d by simp
    show ?thesis
    proof (cases "cutoff < acc \<or> (acc = cutoff \<and> cutlim < d)")
      case over: True
      then have "cutoff * base + cutlim < acc * base + d" by (simp only: t)
      also have "\<dots> \<le> digits_value base (acc * base + d) (takeWhile (digit_in base) s)"
        by (rule digits_value_ge [OF assms(1)])
      finally have big: "cutoff * base + cutlim < digits_value base (acc * base + d) (takeWhile (digit_in base) s)" .
      have n: "fst (snd (strtol_digits base cutoff cutlim acc (- 1) s)) < 0"
        by (rule strtol_digits_neg) simp
      have step: "strtol_digits base cutoff cutlim acc any (c # s) =
                    strtol_digits base cutoff cutlim acc (- 1) s"
        using over d by auto
      from n big show ?thesis by (simp only: step v) simp
    next
      case fit: False
      then have le: "acc * base + d \<le> cutoff * base + cutlim"
        using t by linarith
      have step: "strtol_digits base cutoff cutlim acc any (c # s) =
                    strtol_digits base cutoff cutlim (acc * base + d) 1 s"
        using fit d Cons.prems(1) by auto
      from Cons.IH [of 1 "acc * base + d"] le show ?thesis
        by (simp only: step v) simp
    qed
  qed
qed

lemma strtol_eq:
  "strtol nptr =
     (let s0 = dropWhile isspace nptr;
          neg = (deref s0 = CHR ''-'');
          s1 = (if deref s0 = CHR ''-'' \<or> deref s0 = CHR ''+'' then drop 1 s0 else s0);
          hex = (deref s1 = CHR ''0'' \<and> (deref (drop 1 s1) = CHR ''x'' \<or> deref (drop 1 s1) = CHR ''X''));
          s2 = (if hex then drop 2 s1 else s1);
          base = (if hex then 16 else if deref s1 = CHR ''0'' then 8 else 10);
          limit = (if neg then 2 ^ 31 else 2 ^ 31 - 1);
          run = strtol_digits base (limit div base) (limit mod base) 0 0 s2
      in (if fst (snd run) < 0 then (if neg then LONG_MIN else LONG_MAX)
          else if neg then - word_of_nat (fst run)
          else word_of_nat (fst run),
          if fst (snd run) = 0 then nptr else snd (snd run)))"
  unfolding strtol_def Let_def split_beta ..

lemma spec_unsigned_literal_eq:
  "spec_unsigned_literal s1 =
     (let hex = (deref s1 = CHR ''0'' \<and> (deref (drop 1 s1) = CHR ''x'' \<or> deref (drop 1 s1) = CHR ''X''));
          s2 = (if hex then drop 2 s1 else s1);
          base = (if hex then 16 else if deref s1 = CHR ''0'' then 8 else 10)
      in spec_digits base s2)"
proof (cases s1)
  case Nil
  then show ?thesis by (simp add: spec_unsigned_literal_def deref_def NUL_def)
next
  case (Cons a as)
  then show ?thesis
    by (cases as) (auto simp: spec_unsigned_literal_def deref_def NUL_def Let_def)
qed

lemma spec_integer_literal_eq:
  "spec_integer_literal s0 =
     (let neg = (deref s0 = CHR ''-'');
          s1 = (if deref s0 = CHR ''-'' \<or> deref s0 = CHR ''+'' then drop 1 s0 else s0)
      in map_option (\<lambda>n. if neg then - int n else int n) (spec_unsigned_literal s1))"
proof (cases s0)
  case Nil
  then show ?thesis
    by (simp add: spec_integer_literal_def deref_def NUL_def Let_def option.map_ident)
next
  case (Cons a as)
  then show ?thesis
    by (auto simp: spec_integer_literal_def deref_def Let_def intro: map_option_cong)
qed

lemma spec_digits_Some:
  "(spec_digits b ds = Some n) =
     (ds \<noteq> [] \<and> takeWhile (digit_in b) ds = ds \<and> dropWhile (digit_in b) ds = [] \<and>
      n = digits_value b 0 ds)"
  by (auto simp: spec_digits_def list_all_iff takeWhile_eq_all_conv dropWhile_eq_Nil_conv)

lemma spec_digits_None:
  "(spec_digits b ds = None) = (ds = [] \<or> dropWhile (digit_in b) ds \<noteq> [])"
  by (auto simp: spec_digits_def list_all_iff dropWhile_eq_Nil_conv)

lemma run_value:
  fixes base lim :: nat
  assumes "0 < base"
  shows "(fst (snd (strtol_digits base (lim div base) (lim mod base) 0 0 s)) < 0) =
           (lim < digits_value base 0 (takeWhile (digit_in base) s)) \<and>
         (0 \<le> fst (snd (strtol_digits base (lim div base) (lim mod base) 0 0 s)) \<longrightarrow>
            fst (strtol_digits base (lim div base) (lim mod base) 0 0 s) =
              digits_value base 0 (takeWhile (digit_in base) s))"
proof -
  have m: "lim mod base < base" using assms by simp
  have e: "lim div base * base + lim mod base = lim" by simp
  from strtol_digits_value [OF assms m, of 0 0 "lim div base" s] show ?thesis
    by (simp only: e) simp
qed

lemma run_literal:
  fixes base :: nat and neg :: bool
  assumes b: "0 < base" and sd: "spec_digits base s2 = Some n"
    and lim: "lim = (if neg then 2 ^ 31 else 2 ^ 31 - 1)"
    and run: "run = strtol_digits base (lim div base) (lim mod base) 0 0 s2"
  shows "fst (snd run) \<noteq> 0" "snd (snd run) = []"
    "sint (if fst (snd run) < 0 then (if neg then LONG_MIN else LONG_MAX)
           else if neg then - word_of_nat (fst run)
           else word_of_nat (fst run)) =
       saturate32 (if neg then - int n else int n)"
proof -
  from sd have d: "s2 \<noteq> []" "takeWhile (digit_in base) s2 = s2"
    "dropWhile (digit_in base) s2 = []" "n = digits_value base 0 s2"
    by (simp_all add: spec_digits_Some)
  from d(1) d(2) have "takeWhile (digit_in base) s2 \<noteq> []" by metis
  then show "fst (snd run) \<noteq> 0"
    by (simp add: run strtol_digits_any)
  from d(3) show "snd (snd run) = []"
    by (simp add: run strtol_digits_rest)
  from run_value [OF b, of lim s2] d(2) d(4)
  have v: "(fst (snd run) < 0) = (lim < n)" "0 \<le> fst (snd run) \<longrightarrow> fst run = n"
    by (simp_all add: run)
  show "sint (if fst (snd run) < 0 then (if neg then LONG_MIN else LONG_MAX)
           else if neg then - word_of_nat (fst run)
           else word_of_nat (fst run)) =
       saturate32 (if neg then - int n else int n)"
  proof (cases "fst (snd run) < 0")
    case True
    with v(1) have "lim < n" by simp
    with True lim show ?thesis
      by (cases neg) (simp_all add: sint_LONG saturate32_def)
  next
    case False
    with v have le: "n \<le> lim" and r: "fst run = n" by simp_all
    show ?thesis
    proof (cases neg)
      case True
      with le lim have "n \<le> 2 ^ 31" by simp
      with False True r show ?thesis
        by (simp add: sint_neg_word_of_nat saturate32_def)
    next
      case nn: False
      with le lim have "n < 2 ^ 31" by simp
      with False nn r show ?thesis
        by (simp add: sint_word_of_nat saturate32_def)
    qed
  qed
qed

lemma run_not_literal:
  assumes "spec_digits base s2 = None"
  shows "fst (snd (strtol_digits base cutoff cutlim 0 0 s2)) = 0 \<or>
         snd (snd (strtol_digits base cutoff cutlim 0 0 s2)) \<noteq> []"
  using assms by (auto simp: spec_digits_None strtol_digits_any strtol_digits_rest)

lemma strtol_parts:
  assumes "s0 = dropWhile isspace nptr"
    and "neg = (deref s0 = CHR ''-'')"
    and "s1 = (if deref s0 = CHR ''-'' \<or> deref s0 = CHR ''+'' then drop 1 s0 else s0)"
    and "hex = (deref s1 = CHR ''0'' \<and> (deref (drop 1 s1) = CHR ''x'' \<or> deref (drop 1 s1) = CHR ''X''))"
    and "s2 = (if hex then drop 2 s1 else s1)"
    and "base = (if hex then 16 else if deref s1 = CHR ''0'' then 8 else 10)"
    and "lim = (if neg then 2 ^ 31 else 2 ^ 31 - 1)"
    and "run = strtol_digits base (lim div base) (lim mod base) 0 0 s2"
  shows "strtol nptr =
           (if fst (snd run) < 0 then (if neg then LONG_MIN else LONG_MAX)
            else if neg then - word_of_nat (fst run)
            else word_of_nat (fst run),
            if fst (snd run) = 0 then nptr else snd (snd run))"
    and "spec_integer_literal s0 =
           map_option (\<lambda>n. if neg then - int n else int n) (spec_digits base s2)"
    and "0 < base"
    and "set s2 \<subseteq> set nptr"
proof -
  show "strtol nptr =
           (if fst (snd run) < 0 then (if neg then LONG_MIN else LONG_MAX)
            else if neg then - word_of_nat (fst run)
            else word_of_nat (fst run),
            if fst (snd run) = 0 then nptr else snd (snd run))"
    unfolding assms strtol_eq Let_def ..
  show "spec_integer_literal s0 =
           map_option (\<lambda>n. if neg then - int n else int n) (spec_digits base s2)"
    unfolding assms(2-6) spec_integer_literal_eq spec_unsigned_literal_eq Let_def ..
  show "0 < base" unfolding assms(6) by simp
  have "set s2 \<subseteq> set s1" unfolding assms(5) by (auto dest: in_set_dropD)
  also have "\<dots> \<subseteq> set s0" unfolding assms(3) by (auto dest: in_set_dropD)
  also have "\<dots> \<subseteq> set nptr" unfolding assms(1) by (auto dest: set_dropWhileD)
  finally show "set s2 \<subseteq> set nptr" .
qed

lemma strtol_literal:
  assumes "spec_integer_literal (dropWhile isspace nptr) = Some v"
  shows "snd (strtol nptr) = [] \<and> sint (fst (strtol nptr)) = saturate32 v"
proof -
  define s0 where "s0 = dropWhile isspace nptr"
  define neg where "neg = (deref s0 = CHR ''-'')"
  define s1 where "s1 = (if deref s0 = CHR ''-'' \<or> deref s0 = CHR ''+'' then drop 1 s0 else s0)"
  define hex where "hex = (deref s1 = CHR ''0'' \<and> (deref (drop 1 s1) = CHR ''x'' \<or> deref (drop 1 s1) = CHR ''X''))"
  define s2 where "s2 = (if hex then drop 2 s1 else s1)"
  define base :: nat where "base = (if hex then 16 else if deref s1 = CHR ''0'' then 8 else 10)"
  define lim :: nat where "lim = (if neg then 2 ^ 31 else 2 ^ 31 - 1)"
  define run where "run = strtol_digits base (lim div base) (lim mod base) 0 0 s2"
  note p = strtol_parts [OF s0_def neg_def s1_def hex_def s2_def base_def lim_def run_def]
  from assms p(2) have "map_option (\<lambda>n. if neg then - int n else int n) (spec_digits base s2) = Some v"
    by (simp add: s0_def)
  then obtain n where n: "spec_digits base s2 = Some n"
    "v = (if neg then - int n else int n)"
    by (cases "spec_digits base s2") auto
  note r = run_literal [OF p(3) n(1) lim_def run_def]
  from r(1) r(2) have "snd (strtol nptr) = []" by (simp add: p(1))
  moreover from r(3) have "sint (fst (strtol nptr)) = saturate32 v"
    by (simp only: p(1) n(2) fst_conv)
  ultimately show ?thesis ..
qed

lemma strtol_not_literal:
  assumes "spec_integer_literal (dropWhile isspace nptr) = None" "NUL \<notin> set nptr" "nptr \<noteq> []"
  shows "deref (snd (strtol nptr)) \<noteq> NUL"
proof -
  define s0 where "s0 = dropWhile isspace nptr"
  define neg where "neg = (deref s0 = CHR ''-'')"
  define s1 where "s1 = (if deref s0 = CHR ''-'' \<or> deref s0 = CHR ''+'' then drop 1 s0 else s0)"
  define hex where "hex = (deref s1 = CHR ''0'' \<and> (deref (drop 1 s1) = CHR ''x'' \<or> deref (drop 1 s1) = CHR ''X''))"
  define s2 where "s2 = (if hex then drop 2 s1 else s1)"
  define base :: nat where "base = (if hex then 16 else if deref s1 = CHR ''0'' then 8 else 10)"
  define lim :: nat where "lim = (if neg then 2 ^ 31 else 2 ^ 31 - 1)"
  define run where "run = strtol_digits base (lim div base) (lim mod base) 0 0 s2"
  note p = strtol_parts [OF s0_def neg_def s1_def hex_def s2_def base_def lim_def run_def]
  have nn: "\<And>t. t \<noteq> [] \<Longrightarrow> set t \<subseteq> set nptr \<Longrightarrow> deref t \<noteq> NUL"
  proof -
    fix t :: string
    assume "t \<noteq> []" "set t \<subseteq> set nptr"
    then obtain c cs where "t = c # cs" "c \<in> set nptr" by (cases t) auto
    with assms(2) show "deref t \<noteq> NUL" by (auto simp: deref_def)
  qed
  from assms(1) p(2) have "spec_digits base s2 = None"
    by (simp add: s0_def)
  from run_not_literal [OF this, of "lim div base" "lim mod base"]
  have c: "fst (snd run) = 0 \<or> snd (snd run) \<noteq> []" by (simp add: run_def)
  show ?thesis
  proof (cases "fst (snd run) = 0")
    case True
    then have "snd (strtol nptr) = nptr" by (simp add: p(1))
    with nn [OF assms(3)] show ?thesis by simp
  next
    case False
    with c have ne: "snd (snd run) \<noteq> []" by simp
    have "set (snd (snd run)) \<subseteq> set s2"
      by (auto simp: run_def strtol_digits_rest dest: set_dropWhileD)
    with p(4) have "set (snd (snd run)) \<subseteq> set nptr" by blast
    from nn [OF ne this] False show ?thesis by (simp add: p(1))
  qed
qed

subsection \<open>The kind of the argument\<close>

text \<open>
  Claim C6 says that the argument is of kind Integer exactly when its whole text is
  a signed integer literal (optional sign, \<open>0x\<close> or \<open>0\<close> prefix, else decimal), and that
  the decoded value is stored. The code hands the text to \<open>strtol\<close>, which also skips
  white space before the literal and brings a value that does not fit 32 bits to the
  nearest bound. What holds, for a line of at most \<open>MAX_COMMAND_SIZE - 1\<close> characters
  with a space and a non-empty text after the first space: the name is the text
  before that space and the argument the text after it; the kind is Integer exactly
  when the argument, after any leading white space, is such a literal, and Text
  otherwise; and the stored integer is the literal's value brought into the 32-bit
  range.
\<close>

theorem parseCommand_classifies:
  assumes "strchr line (CHR 0x20) = Some i" "length line < MAX_COMMAND_SIZE"
    "NUL \<notin> set line" "Suc i < length line"
  shows "\<exists>input. parseCommand line input0 st = Inr (input, st) \<and>
           function_name input = take i line \<and>
           str_argument input = drop (Suc i) line \<and>
           (argument_type input = INT32 \<or> argument_type input = STRING) \<and>
           (argument_type input = INT32) =
             (spec_integer_literal (dropWhile isspace (drop (Suc i) line)) \<noteq> None) \<and>
           (\<forall>v. spec_integer_literal (dropWhile isspace (drop (Suc i) line)) = Some v \<longrightarrow>
                sint (int_argument input) = saturate32 v)"
proof -
  let ?a = "drop (Suc i) line"
  from assms(2) assms(4) have i: "i < MAX_COMMAND_SIZE - 1" by simp
  from assms(2) have t: "take (MAX_COMMAND_SIZE - 2 - i) ?a = ?a" by simp
  let ?input = "input0\<lparr>function_name := take i line, str_argument := ?a,
                  int_argument := fst (strtol ?a),
                  argument_type := (if deref (snd (strtol ?a)) \<noteq> NUL then STRING else INT32)\<rparr>"
  from parseCommand_space [OF assms(1) i, of input0 st]
  have p: "parseCommand line input0 st = Inr (?input, st)" by (simp only: t)
  from assms(4) have ne: "?a \<noteq> []" by simp
  from assms(3) have nn: "NUL \<notin> set ?a" by (auto dest: in_set_dropD)
  have c: "(argument_type ?input = INT32) = (spec_integer_literal (dropWhile isspace ?a) \<noteq> None) \<and>
           (\<forall>v. spec_integer_literal (dropWhile isspace ?a) = Some v \<longrightarrow>
                sint (int_argument ?input) = saturate32 v)"
  proof (cases "spec_integer_literal (dropWhile isspace ?a)")
    case None
    from strtol_not_literal [OF None nn ne] None show ?thesis by simp
  next
    case (Some v)
    from strtol_literal [OF Some] Some show ?thesis by (simp add: deref_def)
  qed
  have "function_name ?input = take i line \<and> str_argument ?input = ?a \<and>
        (argument_type ?input = INT32 \<or> argument_type ?input = STRING)"
    by simp
  with p c show ?thesis by blast
qed

theorem parseCommand_classifies_witness:
  "\<exists>input. parseCommand ''ap 0xFF'' stale_input initial_shell = Inr (input, initial_shell) \<and>
     function_name input = ''ap'' \<and> str_argument input = ''0xFF'' \<and>
     argument_type input = INT32 \<and> sint (int_argument input) = 255"
proof -
  have a: "strchr ''ap 0xFF'' (CHR 0x20) = Some 2" by (simp add: NUL_def)
  have b: "length ''ap 0xFF'' < MAX_COMMAND_SIZE" by (simp add: MAX_COMMAND_SIZE_def)
  have c: "NUL \<notin> set ''ap 0xFF''" by (simp add: NUL_def)
  have d: "Suc 2 < length ''ap 0xFF''" by simp
  have l: "spec_integer_literal (dropWhile isspace (drop (Suc 2) ''ap 0xFF'')) = Some 255"
    by (simp add: isspace_def spec_integer_literal_def spec_unsigned_literal_def spec_digits_def
        digit_in_def digit_value_def numeral_3_eq_3)
  from parseCommand_classifies [OF a b c d, of stale_input initial_shell] l
  show ?thesis by (auto simp: saturate32_def numeral_3_eq_3 numeral_2_eq_2)
qed

theorem parseCommand_not_only_literals:
  "parseCommand ''ap  4294967296'' stale_input initial_shell =
     Inr (\<lparr>function_name = ''ap'', argument_type = INT32, int_argument = 0x7FFFFFFF,
           str_argument = '' 4294967296''\<rparr>, initial_shell) \<and>
   spec_integer_literal '' 4294967296'' = None \<and>
   spec_integer_literal ''4294967296'' = Some 4294967296"
  by (simp add: parse_defs stale_input_def spec_integer_literal_def spec_unsigned_literal_def
      spec_digits_def digit_in_def)

end
